theory Spec2Isabelle
  imports Complex_Main "HOL-Library.Multiset"
begin

section \<open>Data model\<close>

text \<open>
  One record of the fixture \<^verbatim>\<open>data/trending.json\<close>. The fields are the ones the ticker
  reads: \<^verbatim>\<open>repo.url\<close>, \<^verbatim>\<open>repo.name\<close>, \<^verbatim>\<open>repo.stars_today\<close>, \<^verbatim>\<open>repo.language\<close> and
  \<^verbatim>\<open>repo.trending_score\<close>. Scores are JSON numbers; they are compared through the sign of
  their difference only, which for finite numbers is the sign of the exact difference,
  so they are taken as reals.
\<close>

record repo =
  name :: string
  url :: string
  stars_today :: nat
  language :: string
  trending_score :: real

section \<open>Star labels: \<^verbatim>\<open>formatNumber\<close>\<close>

text \<open>
  \<^verbatim>\<open>num.toString()\<close> of a non-negative integer below \<open>10\<^sup>2\<^sup>1\<close>: its decimal digits
  (\<open>digit\<close> is only applied to numbers below ten).
\<close>

definition digit :: "nat \<Rightarrow> char" where
  "digit d = ''0123456789'' ! d"

fun toString :: "nat \<Rightarrow> string" where
  "toString n = (if n < 10 then [digit n] else toString (n div 10) @ [digit (n mod 10)])"

declare toString.simps [simp del]

text \<open>
  Numbers of the language are IEEE 754 binary64 values, and \<^verbatim>\<open>num / 1000\<close> is the
  binary64 value nearest to the exact quotient, ties to the even significand.
  \<open>rne a b\<close> is the integer nearest to \<open>a / b\<close>, ties to even; \<open>ilog2 n\<close> is the
  position of the leading bit of \<open>n\<close>. For integers \<open>x \<ge> y > 0\<close> with \<open>x < 2\<^sup>5\<^sup>3\<close> the
  quotient lies in \<open>[2\<^sup>e, 2\<^sup>e\<^sup>+\<^sup>1)\<close> for \<open>e = ilog2 (x div y) \<le> 52\<close>, its significand has 53
  bits, and \<open>number_div x y\<close> is the value the division returns.
\<close>

definition rne :: "nat \<Rightarrow> nat \<Rightarrow> nat" where
  "rne a b =
     (let q = a div b; r = a mod b
      in if 2 * r < b then q
         else if b < 2 * r then q + 1
         else if even q then q else q + 1)"

fun ilog2 :: "nat \<Rightarrow> nat" where
  "ilog2 n = (if n < 2 then 0 else Suc (ilog2 (n div 2)))"

declare ilog2.simps [simp del]

definition number_div :: "nat \<Rightarrow> nat \<Rightarrow> rat" where
  "number_div x y =
     (let k = 52 - ilog2 (x div y)
      in of_nat (rne (x * 2 ^ k) y) / 2 ^ k)"

text \<open>
  \<^verbatim>\<open>x.toFixed(1)\<close> for \<open>0 \<le> x < 10\<^sup>2\<^sup>1\<close>: the integer \<open>n\<close> for which \<open>n / 10 - x\<close> is as close
  to zero as possible, the larger one when there are two (\<open>nearest_tenths\<close>), printed
  with a point before its last digit.
\<close>

definition tenths :: "nat \<Rightarrow> string" where
  "tenths r = toString (r div 10) @ ''.'' @ toString (r mod 10)"

definition nearest_tenths :: "rat \<Rightarrow> int" where
  "nearest_tenths x = \<lfloor>10 * x + 1 / 2\<rfloor>"

definition toFixed1 :: "rat \<Rightarrow> string" where
  "toFixed1 x = tenths (nat (nearest_tenths x))"

definition formatNumber :: "nat \<Rightarrow> string" where
  "formatNumber num =
     (if num \<ge> 1000 then toFixed1 (number_div num 1000) @ ''k''
      else toString num)"

text \<open>
  The label as the specification words it: \<open>n / 1000\<close> rounded to one decimal place
  (half up, the rounding of \<^const>\<open>round\<close>) followed by \<open>k\<close>, the integer otherwise.
\<close>

definition spec_formatNumber :: "nat \<Rightarrow> string" where
  "spec_formatNumber n =
     (if n \<ge> 1000 then tenths (nat (round (10 * (of_nat n / 1000 :: rat)))) @ ''k''
      else toString n)"

section \<open>Language colours: \<^verbatim>\<open>getLangColor\<close>\<close>

text \<open>
  \<^verbatim>\<open>colors[lang] || '#8b8b8b'\<close> reads a property of a plain object. The object's own
  keys are the languages of the table; a name that is not among them is still found
  when it is a member of \<^verbatim>\<open>Object.prototype\<close>, and the value read is then that member (a
  function, or the prototype itself), which is truthy, so the grey is not used. The
  result is therefore a colour string or, for those twelve names, the inherited member.
\<close>

datatype lang_color = Hex string | Inherited string

definition object_prototype_keys :: "string list" where
  "object_prototype_keys =
     [''constructor'', ''__defineGetter__'', ''__defineSetter__'', ''hasOwnProperty'',
      ''__lookupGetter__'', ''__lookupSetter__'', ''isPrototypeOf'', ''propertyIsEnumerable'',
      ''toString'', ''valueOf'', ''__proto__'', ''toLocaleString'']"

definition lookup_color :: "(string \<times> string) list \<Rightarrow> string \<Rightarrow> lang_color" where
  "lookup_color table lang =
     (case map_of table lang of
        Some c \<Rightarrow> Hex c
      | None \<Rightarrow> if lang \<in> set object_prototype_keys then Inherited lang else Hex ''#8b8b8b'')"

definition colors :: "(string \<times> string) list" where
  "colors =
     [(''JavaScript'', ''#f1e05a''), (''TypeScript'', ''#3572A5''), (''Python'', ''#3572A5''),
      (''Go'', ''#00ADD8''), (''Rust'', ''#dea584''), (''Java'', ''#b07219''),
      (''C++'', ''#f34b7d''), (''Ruby'', ''#701516''), (''PHP'', ''#4F5D95''),
      (''Shell'', ''#89e051'')]"

definition getLangColor :: "string \<Rightarrow> lang_color" where
  "getLangColor lang =
     (if lang = ''TypeScript'' then Hex ''#3178c6'' else lookup_color colors lang)"

section \<open>Sorting the fixture\<close>

text \<open>
  \<^verbatim>\<open>data.sort((a, b) => b.trending_score - a.trending_score)\<close>. The language requires
  \<^verbatim>\<open>Array.prototype.sort\<close> to be stable and leaves the algorithm open; for a consistent
  comparator every stable algorithm returns the same array, so insertion from the right
  stands for it: \<open>x\<close> goes before the first \<open>y\<close> with \<open>cmp x y \<le> 0\<close>.
\<close>

definition compareScore :: "repo \<Rightarrow> repo \<Rightarrow> real" where
  "compareScore a b = trending_score b - trending_score a"

fun insert_by :: "('a \<Rightarrow> 'a \<Rightarrow> real) \<Rightarrow> 'a \<Rightarrow> 'a list \<Rightarrow> 'a list" where
  "insert_by cmp x [] = [x]"
| "insert_by cmp x (y # ys) =
     (if cmp x y \<le> 0 then x # y # ys else y # insert_by cmp x ys)"

definition array_sort :: "('a \<Rightarrow> 'a \<Rightarrow> real) \<Rightarrow> 'a list \<Rightarrow> 'a list" where
  "array_sort cmp xs = foldr (insert_by cmp) xs []"

section \<open>Rendering: \<^verbatim>\<open>renderTicker\<close>\<close>

text \<open>
  One \<^verbatim>\<open>a.ticker-item\<close> per repo: the link target, the name, the \<^verbatim>\<open>aria-label\<close> of the
  star count (\<open>None\<close> when the attribute is not written), the star label that follows
  the star sign, and the colour and the text of the language tag. The strip is written
  twice (\<^verbatim>\<open>html + html\<close>).
\<close>

record card =
  href :: string
  ticker_name :: string
  ticker_stars_aria_label :: "string option"
  ticker_stars :: string
  ticker_lang_background :: lang_color
  ticker_lang :: string

definition ticker_item :: "repo \<Rightarrow> card" where
  "ticker_item r =
     \<lparr>href = url r, ticker_name = name r,
      ticker_stars_aria_label = Some (toString (stars_today r) @ '' stars today''),
      ticker_stars = formatNumber (stars_today r),
      ticker_lang_background = getLangColor (language r), ticker_lang = language r\<rparr>"

datatype content = Markup | Cards "card list" | TickerError

text \<open>
  The element \<^verbatim>\<open>#trending-ticker-content\<close>: its \<^verbatim>\<open>innerHTML\<close> (the page's own markup,
  the cards, or the \<^verbatim>\<open>span.ticker-error\<close> message), the offset of its
  \<^verbatim>\<open>translateX\<close> transform and its \<^verbatim>\<open>style.width\<close> (\<open>None\<close> while the script has
  not set them).
\<close>

record element =
  innerHTML :: content
  translateX :: "real option"
  style_width :: "string option"

definition render_cards :: "repo list \<Rightarrow> card list" where
  "render_cards rs = map ticker_item rs @ map ticker_item rs"

definition renderTicker :: "repo list \<Rightarrow> element \<Rightarrow> element" where
  "renderTicker rs el =
     (if rs = [] then el
      else el\<lparr>innerHTML := Cards (render_cards rs), translateX := Some 0\<rparr>)"

section \<open>The ticker engine (\<^verbatim>\<open>js/trending-ticker.js\<close>)\<close>

definition TICKER_SPEED :: real where
  "TICKER_SPEED = 50"

definition TICKER_PAUSE :: real where
  "TICKER_PAUSE = 2000"

text \<open>
  The variables of the script, followed by the part of the browser the script talks to:
  the animation-frame callbacks requested and not yet run (\<open>pending_frames\<close>), the number
  of \<^verbatim>\<open>requestAnimationFrame\<close> calls made so far (\<open>frame_requests\<close>; the handle a call
  returns is that number after the call, so it is never zero), and the delays of the
  \<^verbatim>\<open>setTimeout\<close> callbacks not yet run (\<open>timeouts\<close>). Positions and timestamps are
  taken as reals: the properties below compare and clamp them, and do not depend on
  rounding.
\<close>

record ticker_vars =
  repos :: "repo list"
  tickerElement :: "element option"
  animationId :: "nat option"
  isPaused :: bool
  direction :: int
  currentPosition :: real
  lastTime :: real
  pending_frames :: nat
  frame_requests :: nat
  timeouts :: "real list"

record ticker = ticker_vars +
  isVisible :: bool

text \<open>
  What \<^verbatim>\<open>animate\<close> reads from the layout at a frame: \<^verbatim>\<open>tickerElement.scrollWidth\<close> and
  \<^verbatim>\<open>tickerElement.parentElement.offsetWidth\<close>.
\<close>

record layout =
  strip_scrollWidth :: real
  container_offsetWidth :: real

definition contentWidth :: "layout \<Rightarrow> real" where
  "contentWidth L = strip_scrollWidth L / 2"

definition lower_bound :: "layout \<Rightarrow> real" where
  "lower_bound L = - (contentWidth L - container_offsetWidth L)"

text \<open>\<^verbatim>\<open>animationId = requestAnimationFrame(animate)\<close>\<close>

definition request_frame :: "'a ticker_vars_scheme \<Rightarrow> 'a ticker_vars_scheme" where
  "request_frame s =
     s\<lparr>animationId := Some (Suc (frame_requests s)),
       frame_requests := Suc (frame_requests s),
       pending_frames := Suc (pending_frames s)\<rparr>"

definition pauseTicker :: "'a ticker_vars_scheme \<Rightarrow> 'a ticker_vars_scheme" where
  "pauseTicker s = s\<lparr>isPaused := True, timeouts := timeouts s @ [TICKER_PAUSE]\<rparr>"

text \<open>The callback given to \<^verbatim>\<open>setTimeout\<close>, run by the browser when a delay has passed.\<close>

definition timeout_fires :: "'a ticker_vars_scheme \<Rightarrow> 'a ticker_vars_scheme" where
  "timeout_fires s =
     (case timeouts s of [] \<Rightarrow> s | d # ds \<Rightarrow> s\<lparr>isPaused := False, timeouts := ds\<rparr>)"

definition set_transform :: "'a ticker_vars_scheme \<Rightarrow> 'a ticker_vars_scheme" where
  "set_transform s =
     s\<lparr>tickerElement :=
         map_option (\<lambda>el. el\<lparr>translateX := Some (currentPosition s)\<rparr>) (tickerElement s)\<rparr>"

definition move :: "layout \<Rightarrow> real \<Rightarrow> ticker \<Rightarrow> ticker" where
  "move L currentTime s =
     (let deltaTime = (currentTime - lastTime s) / 1000;
          s1 = s\<lparr>lastTime := currentTime,
                 currentPosition :=
                   currentPosition s + TICKER_SPEED * of_int (direction s) * deltaTime\<rparr>;
          s2 = (if currentPosition s1 \<ge> 0
                then pauseTicker (s1\<lparr>currentPosition := 0, direction := - 1\<rparr>)
                else if currentPosition s1 \<le> - (contentWidth L - container_offsetWidth L)
                then pauseTicker
                       (s1\<lparr>currentPosition := - (contentWidth L - container_offsetWidth L),
                           direction := 1\<rparr>)
                else s1)
      in set_transform s2)"

definition animate :: "layout \<Rightarrow> real \<Rightarrow> ticker \<Rightarrow> ticker" where
  "animate L currentTime s =
     (if tickerElement s = None \<or> \<not> isVisible s then s\<lparr>animationId := None\<rparr>
      else request_frame
             (if \<not> isPaused s then move L currentTime s
              else s\<lparr>lastTime := currentTime\<rparr>))"

definition startAnimation :: "real \<Rightarrow> ticker \<Rightarrow> ticker" where
  "startAnimation now s = request_frame (s\<lparr>lastTime := now\<rparr>)"

text \<open>
  The outcome of \<^verbatim>\<open>fetch(TICKER_DATA_URL)\<close>: the request is rejected, or a response
  arrives with its \<^verbatim>\<open>ok\<close> flag and a body that parses to an array of repos or does not
  parse.
\<close>

datatype payload = Unparseable | Parsed "repo list"

datatype fetched = Unreachable | Response bool payload

definition show_error :: "'a ticker_vars_scheme \<Rightarrow> 'a ticker_vars_scheme" where
  "show_error s =
     s\<lparr>tickerElement :=
         map_option (\<lambda>el. el\<lparr>innerHTML := TickerError\<rparr>) (tickerElement s)\<rparr>"

definition render :: "'a ticker_vars_scheme \<Rightarrow> 'a ticker_vars_scheme" where
  "render s = s\<lparr>tickerElement := map_option (renderTicker (repos s)) (tickerElement s)\<rparr>"

definition data_loaded :: "repo list \<Rightarrow> real \<Rightarrow> ticker \<Rightarrow> ticker" where
  "data_loaded data now s =
     startAnimation now (render (s\<lparr>repos := array_sort compareScore data\<rparr>))"

definition fetch_settles :: "fetched \<Rightarrow> real \<Rightarrow> ticker \<Rightarrow> ticker" where
  "fetch_settles r now s =
     (case r of
        Unreachable \<Rightarrow> show_error s
      | Response ok body \<Rightarrow>
          if \<not> ok then show_error s
          else (case body of Unparseable \<Rightarrow> show_error s
                | Parsed data \<Rightarrow> data_loaded data now s))"

text \<open>The callback of the \<^verbatim>\<open>IntersectionObserver\<close>.\<close>

definition intersection :: "bool \<Rightarrow> real \<Rightarrow> ticker \<Rightarrow> ticker" where
  "intersection isIntersecting now s =
     (let s1 = s\<lparr>isVisible := isIntersecting\<rparr>
      in if isVisible s1 \<and> animationId s1 = None
         then request_frame (s1\<lparr>lastTime := now\<rparr>)
         else s1)"

text \<open>
  The state \<^verbatim>\<open>initTicker\<close> leaves when the element exists: the variables as declared,
  the observer registered and the fetch under way, nothing requested from the browser.
\<close>

definition initTicker :: "element \<Rightarrow> ticker" where
  "initTicker el =
     \<lparr>repos = [], tickerElement = Some el, animationId = None, isPaused = False,
      direction = - 1, currentPosition = 0, lastTime = 0,
      pending_frames = 0, frame_requests = 0, timeouts = [], isVisible = True\<rparr>"

definition page_element :: element where
  "page_element = \<lparr>innerHTML = Markup, translateX = None, style_width = None\<rparr>"

text \<open>
  What can happen to the widget after \<^verbatim>\<open>initTicker\<close>: the observer reports, the fetch
  settles, the browser renders a frame, a timer fires. At a frame the browser runs the
  callbacks that were pending when the frame began, each with the frame's timestamp;
  callbacks requested meanwhile wait for the next frame.
\<close>

datatype event =
    Intersect bool real
  | Fetch fetched real
  | Frame real layout
  | Timeout

definition run_frame :: "layout \<Rightarrow> real \<Rightarrow> ticker \<Rightarrow> ticker" where
  "run_frame L t s = (animate L t ^^ pending_frames s) (s\<lparr>pending_frames := 0\<rparr>)"

fun step :: "event \<Rightarrow> ticker \<Rightarrow> ticker" where
  "step (Intersect b now) s = intersection b now s"
| "step (Fetch r now) s = fetch_settles r now s"
| "step (Frame t L) s = run_frame L t s"
| "step Timeout s = timeout_fires s"

definition run :: "event list \<Rightarrow> ticker \<Rightarrow> ticker" where
  "run evs s = fold step evs s"

definition fetch_failed :: "fetched \<Rightarrow> bool" where
  "fetch_failed r \<longleftrightarrow>
     (case r of Unreachable \<Rightarrow> True | Response ok body \<Rightarrow> \<not> ok \<or> body = Unparseable)"

text \<open>
  The track of the specification is \<open>[-(contentWidth - containerWidth), 0]\<close>. A run keeps
  one layout when each of its frames reads that layout; \<open>is_frame\<close> singles the frames
  out.
\<close>

definition in_range :: "layout \<Rightarrow> real \<Rightarrow> bool" where
  "in_range L p \<longleftrightarrow> lower_bound L \<le> p \<and> p \<le> 0"

definition clamp :: "layout \<Rightarrow> real \<Rightarrow> real" where
  "clamp L p = (if p \<ge> 0 then 0 else if p \<le> lower_bound L then lower_bound L else p)"

text \<open>A tick moves the strip when the element exists, the container is visible and the
  ticker is not paused.\<close>

definition moving :: "ticker \<Rightarrow> bool" where
  "moving s \<longleftrightarrow> tickerElement s \<noteq> None \<and> isVisible s \<and> \<not> isPaused s"

definition well_directed :: "ticker \<Rightarrow> bool" where
  "well_directed s \<longleftrightarrow> direction s = 1 \<or> direction s = - 1"

fun is_frame :: "event \<Rightarrow> bool" where
  "is_frame (Frame t L) = True"
| "is_frame _ = False"

definition frames_at :: "layout \<Rightarrow> event list \<Rightarrow> bool" where
  "frames_at L evs = list_all (\<lambda>e. case e of Frame t L' \<Rightarrow> L' = L | _ \<Rightarrow> True) evs"

text \<open>
  The layout read by the last frame of a run that moved the strip: a frame moves the
  strip when, as it begins, a callback is pending and the ticker is \<open>moving\<close>. \<open>None\<close>
  when no frame of the run moved it.
\<close>

fun last_moving_frame :: "event list \<Rightarrow> ticker \<Rightarrow> layout option" where
  "last_moving_frame [] s = None"
| "last_moving_frame (e # evs) s =
     (case last_moving_frame evs (step e s) of
        Some L \<Rightarrow> Some L
      | None \<Rightarrow>
          (case e of
             Frame t L \<Rightarrow> if moving s \<and> 0 < pending_frames s then Some L else None
           | _ \<Rightarrow> None))"

section \<open>The earlier ticker (\<^verbatim>\<open>unnamed/part_001\<close>)\<close>

text \<open>
  The repository holds a second copy of the ticker script. It has no observer, starts
  with \<open>direction = 1\<close>, keeps \<^verbatim>\<open>lastTime\<close> and \<^verbatim>\<open>contentWidth\<close> as locals of
  \<^verbatim>\<open>startAnimation\<close> (here: fields written by it), does not set the position to the bound
  it has passed, and leaves \<^verbatim>\<open>lastTime\<close> alone while paused. Its \<^verbatim>\<open>formatNumber\<close> is the
  same; its colour table gives TypeScript \<^verbatim>\<open>#2b7489\<close> and has no special case; its cards
  carry no \<^verbatim>\<open>aria-label\<close>; and it sets the width of the strip to \<open>2 * repos.length\<close>
  hundred per cent.
\<close>

record ticker1 = ticker_vars +
  startAnimation_contentWidth :: real

definition colors1 :: "(string \<times> string) list" where
  "colors1 =
     [(''JavaScript'', ''#f1e05a''), (''TypeScript'', ''#2b7489''), (''Python'', ''#3572A5''),
      (''Go'', ''#00ADD8''), (''Rust'', ''#dea584''), (''Java'', ''#b07219''),
      (''C++'', ''#f34b7d''), (''Ruby'', ''#701516''), (''PHP'', ''#4F5D95''),
      (''Shell'', ''#89e051'')]"

definition getLangColor1 :: "string \<Rightarrow> lang_color" where
  "getLangColor1 lang = lookup_color colors1 lang"

definition ticker_item1 :: "repo \<Rightarrow> card" where
  "ticker_item1 r =
     \<lparr>href = url r, ticker_name = name r, ticker_stars_aria_label = None,
      ticker_stars = formatNumber (stars_today r),
      ticker_lang_background = getLangColor1 (language r), ticker_lang = language r\<rparr>"

definition renderTicker1 :: "repo list \<Rightarrow> element \<Rightarrow> element" where
  "renderTicker1 rs el =
     (if rs = [] then el
      else el\<lparr>innerHTML := Cards (map ticker_item1 rs @ map ticker_item1 rs),
              style_width := Some (toString (length rs * 2) @ ''00%'')\<rparr>)"

definition animate1 :: "real \<Rightarrow> real \<Rightarrow> ticker1 \<Rightarrow> ticker1" where
  "animate1 offsetWidth currentTime s =
     request_frame
       (if \<not> isPaused s then
          (let deltaTime = (currentTime - lastTime s) / 1000;
               s1 = s\<lparr>lastTime := currentTime,
                      currentPosition :=
                        currentPosition s + TICKER_SPEED * of_int (direction s) * deltaTime\<rparr>;
               s2 = (if currentPosition s1 \<ge> 0
                     then pauseTicker (s1\<lparr>direction := - 1\<rparr>)
                     else if currentPosition s1 \<le> - (startAnimation_contentWidth s1 - offsetWidth)
                     then pauseTicker (s1\<lparr>direction := 1\<rparr>)
                     else s1)
           in set_transform s2)
        else s)"

definition startAnimation1 :: "real \<Rightarrow> real \<Rightarrow> ticker1 \<Rightarrow> ticker1" where
  "startAnimation1 strip_offsetWidth now s =
     request_frame (s\<lparr>startAnimation_contentWidth := strip_offsetWidth / 2, lastTime := now\<rparr>)"

definition fetch_settles1 :: "fetched \<Rightarrow> real \<Rightarrow> real \<Rightarrow> ticker1 \<Rightarrow> ticker1" where
  "fetch_settles1 r strip_offsetWidth now s =
     (case r of
        Unreachable \<Rightarrow> show_error s
      | Response ok body \<Rightarrow>
          if \<not> ok then show_error s
          else (case body of Unparseable \<Rightarrow> show_error s
                | Parsed data \<Rightarrow>
                    startAnimation1 strip_offsetWidth now
                      (let s1 = s\<lparr>repos := array_sort compareScore data\<rparr>
                       in s1\<lparr>tickerElement :=
                              map_option (renderTicker1 (repos s1)) (tickerElement s1)\<rparr>)))"

definition initTicker1 :: "element \<Rightarrow> ticker1" where
  "initTicker1 el =
     \<lparr>repos = [], tickerElement = Some el, animationId = None, isPaused = False,
      direction = 1, currentPosition = 0, lastTime = 0,
      pending_frames = 0, frame_requests = 0, timeouts = [],
      startAnimation_contentWidth = 0\<rparr>"

text \<open>
  Its events: the fetch settles (with the strip's \<^verbatim>\<open>offsetWidth\<close> after rendering), a
  frame (with the container's \<^verbatim>\<open>offsetWidth\<close>), a timer.
\<close>

datatype event1 =
    Fetch1 fetched real real
  | Frame1 real real
  | Timeout1

fun step1 :: "event1 \<Rightarrow> ticker1 \<Rightarrow> ticker1" where
  "step1 (Fetch1 r w now) s = fetch_settles1 r w now s"
| "step1 (Frame1 t w) s = (animate1 w t ^^ pending_frames s) (s\<lparr>pending_frames := 0\<rparr>)"
| "step1 Timeout1 s = timeout_fires s"

definition run1 :: "event1 list \<Rightarrow> ticker1 \<Rightarrow> ticker1" where
  "run1 evs s = fold step1 evs s"

section \<open>The visual QC suite (\<^verbatim>\<open>visual-qc.spec.js\<close> and \<^verbatim>\<open>unnamed/part_000\<close>)\<close>

text \<open>
  The repository holds two copies of the suite. An \<^verbatim>\<open>expect\<close> that fails, or an action
  that times out, throws; nothing in either copy catches, so the test function ends
  there. A test is modelled as a function from what the browser shows to the error
  thrown, if any, and the screenshots written.
\<close>

datatype qc_error =
    CountMismatch nat
  | ClickTimeout string
  | UrlMismatch string
  | NotVisible string
  | HorizontalOverflow

subsection \<open>Strings\<close>

definition toLowerCase :: "string \<Rightarrow> string" where
  "toLowerCase s =
     map (\<lambda>c. case map_of (zip ''ABCDEFGHIJKLMNOPQRSTUVWXYZ'' ''abcdefghijklmnopqrstuvwxyz'') c of
                 Some l \<Rightarrow> l | None \<Rightarrow> c) s"

text \<open>\<^verbatim>\<open>s.replace(a, b)\<close> with one-character strings: the first occurrence only.\<close>

fun replace_first :: "char \<Rightarrow> char \<Rightarrow> string \<Rightarrow> string" where
  "replace_first a b [] = []"
| "replace_first a b (c # cs) = (if c = a then b # cs else c # replace_first a b cs)"

definition endsWith :: "string \<Rightarrow> string \<Rightarrow> bool" where
  "endsWith s suffix \<longleftrightarrow>
     length suffix \<le> length s \<and> drop (length s - length suffix) s = suffix"

text \<open>
  \<^verbatim>\<open>toHaveURL(new RegExp(pg.path.replace('/', '\\/') + '$'))\<close>. The declared paths consist
  of letters, \<^verbatim>\<open>/\<close>, \<^verbatim>\<open>-\<close> and \<^verbatim>\<open>.\<close>; the escaped slash matches a slash, and the dot
  is the only character of the pattern that matches more than itself. The pattern is
  anchored at the end only, so the location matches when its last characters match the
  path position by position.
\<close>

definition toHaveURL :: "string \<Rightarrow> string \<Rightarrow> bool" where
  "toHaveURL location pg_path \<longleftrightarrow>
     length pg_path \<le> length location \<and>
     list_all2 (\<lambda>p c. p = c \<or> p = CHR ''.'')
       pg_path (drop (length location - length pg_path) location)"

subsection \<open>Navigation walk\<close>

record nav_page =
  pg_name :: string
  pg_path :: string
  pg_element :: string

definition pagesToTest :: "nav_page list" where
  "pagesToTest =
     [\<lparr>pg_name = ''Home'', pg_path = ''/'', pg_element = ''[data-testid=\"page-home\"]''\<rparr>,
      \<lparr>pg_name = ''Blog'', pg_path = ''/blog/'', pg_element = ''[data-testid=\"page-blog\"]''\<rparr>,
      \<lparr>pg_name = ''Reviews'', pg_path = ''/reviews/'',
       pg_element = ''[data-testid=\"page-reviews\"]''\<rparr>,
      \<lparr>pg_name = ''Walkthroughs'', pg_path = ''/blog/walkthroughs.html'',
       pg_element = ''[data-testid=\"page-walkthroughs\"]''\<rparr>,
      \<lparr>pg_name = ''Resources'', pg_path = ''/resources.html'',
       pg_element = ''[data-testid=\"page-resources\"]''\<rparr>,
      \<lparr>pg_name = ''KAI Corner'', pg_path = ''/kai-corner.html'',
       pg_element = ''[data-testid=\"page-kai-corner\"]''\<rparr>,
      \<lparr>pg_name = ''Tasks'', pg_path = ''/tasks.html'',
       pg_element = ''[data-testid=\"page-tasks\"]''\<rparr>,
      \<lparr>pg_name = ''Tools'', pg_path = ''/tools.html'',
       pg_element = ''[data-testid=\"page-tools\"]''\<rparr>]"

definition pages :: "nav_page list" where
  "pages =
     [\<lparr>pg_name = ''home'', pg_path = ''/'', pg_element = ''[data-testid=\"page-home\"]''\<rparr>,
      \<lparr>pg_name = ''blog'', pg_path = ''/blog/'', pg_element = ''[data-testid=\"page-blog\"]''\<rparr>,
      \<lparr>pg_name = ''reviews'', pg_path = ''/reviews/'',
       pg_element = ''[data-testid=\"page-reviews\"]''\<rparr>,
      \<lparr>pg_name = ''walkthroughs'', pg_path = ''/blog/walkthroughs.html'',
       pg_element = ''[data-testid=\"page-walkthroughs\"]''\<rparr>,
      \<lparr>pg_name = ''resources'', pg_path = ''/resources.html'',
       pg_element = ''[data-testid=\"page-resources\"]''\<rparr>,
      \<lparr>pg_name = ''kai-corner'', pg_path = ''/kai-corner.html'',
       pg_element = ''[data-testid=\"page-kai-corner\"]''\<rparr>,
      \<lparr>pg_name = ''tasks'', pg_path = ''/tasks.html'',
       pg_element = ''[data-testid=\"page-tasks\"]''\<rparr>,
      \<lparr>pg_name = ''tools'', pg_path = ''/tools.html'',
       pg_element = ''[data-testid=\"page-tools\"]''\<rparr>]"

text \<open>
  What the site does when the harness activates the link of a tuple: whether
  \<^verbatim>\<open>page.click\<close> finds a link with that \<^verbatim>\<open>href\<close>, where the browser is once the page has
  loaded, and whether the tuple's marker becomes visible within the wait.
\<close>

record visit =
  link_clicked :: bool
  location :: string
  marker_visible :: bool

type_synonym site = "nav_page \<Rightarrow> visit"

text \<open>
  The body of \<^verbatim>\<open>for (const pg of ...)\<close>: an iteration that throws ends the loop; one that
  does not writes its screenshot and goes on. The result is the list of screenshots
  written and the error thrown, if any.
\<close>

fun nav_loop ::
  "(nav_page \<Rightarrow> string) \<Rightarrow> site \<Rightarrow> nav_page list \<Rightarrow> string list \<Rightarrow> string list \<times> qc_error option"
where
  "nav_loop shot site [] written = (written, None)"
| "nav_loop shot site (pg # pgs) written =
     (let v = site pg
      in if \<not> link_clicked v then (written, Some (ClickTimeout (pg_path pg)))
         else if \<not> toHaveURL (location v) (pg_path pg) then (written, Some (UrlMismatch (pg_path pg)))
         else if \<not> marker_visible v then (written, Some (NotVisible (pg_element pg)))
         else nav_loop shot site pgs (written @ [shot pg]))"

definition nav_screenshot :: "nav_page \<Rightarrow> string" where
  "nav_screenshot pg =
     ''screenshots/nav-'' @ replace_first CHR '' '' CHR ''-'' (toLowerCase (pg_name pg)) @ ''.png''"

definition nav_screenshot0 :: "nav_page \<Rightarrow> string" where
  "nav_screenshot0 pg = ''screenshots/nav-'' @ pg_name pg @ ''.png''"

text \<open>
  \<^verbatim>\<open>navigation has all 8 links that WORK\<close> (\<^verbatim>\<open>visual-qc.spec.js\<close>; \<open>link_count\<close> is the number of
  elements tagged \<^verbatim>\<open>nav-link\<close>) and \<^verbatim>\<open>navigation links WORK\<close> (\<^verbatim>\<open>unnamed/part_000\<close>).
\<close>

definition navigation_test :: "nat \<Rightarrow> site \<Rightarrow> string list \<times> qc_error option" where
  "navigation_test link_count site =
     (if link_count \<noteq> 8 then ([], Some (CountMismatch link_count))
      else nav_loop nav_screenshot site pagesToTest [])"

definition navigation_test0 :: "site \<Rightarrow> string list \<times> qc_error option" where
  "navigation_test0 site = nav_loop nav_screenshot0 site pages []"

text \<open>A tuple passes when none of its three checks throws.\<close>

definition tuple_passes :: "site \<Rightarrow> nav_page \<Rightarrow> bool" where
  "tuple_passes site pg \<longleftrightarrow>
     link_clicked (site pg) \<and> toHaveURL (location (site pg)) (pg_path pg) \<and> marker_visible (site pg)"

definition tuple_error :: "site \<Rightarrow> nav_page \<Rightarrow> qc_error" where
  "tuple_error site pg =
     (if \<not> link_clicked (site pg) then ClickTimeout (pg_path pg)
      else if \<not> toHaveURL (location (site pg)) (pg_path pg) then UrlMismatch (pg_path pg)
      else NotVisible (pg_element pg))"

subsection \<open>Responsive matrix\<close>

record breakpoint =
  bp_name :: string
  width :: nat
  height :: nat

definition breakpoints :: "breakpoint list" where
  "breakpoints =
     [\<lparr>bp_name = ''mobile-small'', width = 320, height = 568\<rparr>,
      \<lparr>bp_name = ''mobile-medium'', width = 375, height = 667\<rparr>,
      \<lparr>bp_name = ''mobile-large'', width = 414, height = 896\<rparr>,
      \<lparr>bp_name = ''tablet'', width = 768, height = 1024\<rparr>,
      \<lparr>bp_name = ''desktop'', width = 1280, height = 720\<rparr>,
      \<lparr>bp_name = ''desktop-large'', width = 1920, height = 1080\<rparr>]"

text \<open>
  What the root page shows once loaded in a viewport: whether the logo is visible, and
  \<^verbatim>\<open>document.documentElement.scrollWidth\<close> and \<^verbatim>\<open>clientWidth\<close>.
\<close>

record rendering =
  logo_visible :: bool
  scrollWidth :: int
  clientWidth :: int

type_synonym root_page = "nat \<Rightarrow> nat \<Rightarrow> rendering"

definition assertNoHorizontalScroll :: "rendering \<Rightarrow> qc_error option" where
  "assertNoHorizontalScroll doc =
     (let hasOverflow = scrollWidth doc > clientWidth doc + 1
      in if hasOverflow then Some HorizontalOverflow else None)"

definition logo :: string where
  "logo = ''[data-testid=\"techquest-logo\"]''"

text \<open>The test of one breakpoint in \<^verbatim>\<open>visual-qc.spec.js\<close>, then in \<^verbatim>\<open>unnamed/part_000\<close>.\<close>

definition responsive_test :: "root_page \<Rightarrow> breakpoint \<Rightarrow> qc_error + string" where
  "responsive_test page bp =
     (let doc = page (width bp) (height bp)
      in if \<not> logo_visible doc then Inl (NotVisible logo)
         else Inr (''screenshots/responsive-'' @ bp_name bp @ ''.png''))"

definition responsive_test0 :: "root_page \<Rightarrow> breakpoint \<Rightarrow> qc_error + string" where
  "responsive_test0 page bp =
     (let doc = page (width bp) (height bp)
      in if \<not> logo_visible doc then Inl (NotVisible logo)
         else case assertNoHorizontalScroll doc of
                Some e \<Rightarrow> Inl e
              | None \<Rightarrow> Inr (''screenshots/responsive-'' @ bp_name bp @ ''.png''))"

section \<open>The report writer (\<^verbatim>\<open>test.afterEach\<close> of \<^verbatim>\<open>visual-qc.spec.js\<close>)\<close>

datatype test_status = passed | failed | timedOut | skipped | interrupted

fun status_text :: "test_status \<Rightarrow> string" where
  "status_text passed = ''passed''"
| "status_text failed = ''failed''"
| "status_text timedOut = ''timedOut''"
| "status_text skipped = ''skipped''"
| "status_text interrupted = ''interrupted''"

record testInfo =
  title :: string
  status :: test_status
  duration :: nat

text \<open>The object written to \<^verbatim>\<open>report.json\<close>; \<open>screenshots\<close> is \<^verbatim>\<open>artifacts.screenshots\<close>.\<close>

record report =
  timestamp :: string
  test :: string
  report_status :: test_status
  report_duration :: nat
  screenshots :: "string list"

text \<open>
  The files the hook touches: the directory \<^verbatim>\<open>screenshots\<close> of the working directory
  (\<open>None\<close> while it does not exist; the names of its files otherwise) and, for each
  date, the directory \<^verbatim>\<open>../qc/<date>\<close> with its \<^verbatim>\<open>screenshots\<close> subdirectory, its
  \<^verbatim>\<open>report.json\<close> and its \<^verbatim>\<open>report.md\<close>. File contents other than the two reports are
  not modelled: writing a file under a name that exists leaves the listing as it is.
\<close>

record qc_dir =
  qc_screenshots :: "string list"
  report_json :: "report option"
  report_md :: "string option"

record disk =
  screenshots_dir :: "string list option"
  qc :: "string \<rightharpoonup> qc_dir"

definition write_file :: "string \<Rightarrow> string list \<Rightarrow> string list" where
  "write_file f dir = (if f \<in> set dir then dir else dir @ [f])"

definition newline :: char where
  "newline = CHR 0x0A"

definition report_markdown :: "string \<Rightarrow> testInfo \<Rightarrow> string \<Rightarrow> string" where
  "report_markdown date testInfo generated =
     ''# Visual QC Report - '' @ date @ [newline, newline] @
     ''**Test:** '' @ title testInfo @ [newline] @
     ''**Status:** '' @ status_text (status testInfo) @ [newline] @
     ''**Duration:** '' @ toString (duration testInfo) @ ''ms'' @ [newline, newline] @
     ''## Artifacts'' @ [newline, newline] @
     ''- Screenshots: ../qc/'' @ date @ ''/screenshots/'' @ [newline] @
     ''- Report: ../qc/'' @ date @ ''/report.json'' @ [newline, newline] @
     ''---'' @ [newline] @ ''Generated: '' @ generated @ [newline]"

definition png_files :: "disk \<Rightarrow> string list" where
  "png_files d =
     (case screenshots_dir d of None \<Rightarrow> []
      | Some files \<Rightarrow> filter (\<lambda>f. endsWith f ''.png'') files)"

text \<open>
  The hook, given the two readings of the clock it makes (the date of the first, the
  ISO timestamp of the second) and the \<^verbatim>\<open>testInfo\<close> of the test that has ended.
\<close>

definition afterEach :: "string \<Rightarrow> string \<Rightarrow> testInfo \<Rightarrow> disk \<Rightarrow> disk" where
  "afterEach date now testInfo d =
     (let dir0 = (case qc d date of
                    None \<Rightarrow> \<lparr>qc_screenshots = [], report_json = None, report_md = None\<rparr>
                  | Some existing \<Rightarrow> existing);
          dir1 = dir0\<lparr>qc_screenshots := fold write_file (png_files d) (qc_screenshots dir0)\<rparr>;
          report = \<lparr>timestamp = now, test = title testInfo, report_status = status testInfo,
                    report_duration = duration testInfo, screenshots = png_files d\<rparr>
      in d\<lparr>qc := (qc d)(date \<mapsto>
               dir1\<lparr>report_json := Some report,
                    report_md := Some (report_markdown date testInfo now)\<rparr>)\<rparr>)"

text \<open>
  One test case of a run: the screenshots its body writes into \<^verbatim>\<open>screenshots\<close>
  (\<^verbatim>\<open>page.screenshot\<close> creates the directory when it is missing), then the hook.
\<close>

record test_case =
  info :: testInfo
  shots :: "string list"
  ended_on :: string
  ended_at :: string

definition screenshot :: "string \<Rightarrow> disk \<Rightarrow> disk" where
  "screenshot f d =
     d\<lparr>screenshots_dir :=
         Some (write_file f (case screenshots_dir d of None \<Rightarrow> [] | Some files \<Rightarrow> files))\<rparr>"

definition run_case :: "test_case \<Rightarrow> disk \<Rightarrow> disk" where
  "run_case c d = afterEach (ended_on c) (ended_at c) (info c) (fold screenshot (shots c) d)"

definition run_cases :: "test_case list \<Rightarrow> disk \<Rightarrow> disk" where
  "run_cases cs d = fold run_case cs d"

text \<open>The entries the report of a date holds: \<^verbatim>\<open>report.json\<close> is one object, or is absent.\<close>

definition report_entries :: "disk \<Rightarrow> string \<Rightarrow> report list" where
  "report_entries d date =
     (case qc d date of None \<Rightarrow> []
      | Some dir \<Rightarrow> (case report_json dir of None \<Rightarrow> [] | Some r \<Rightarrow> [r]))"

definition empty_disk :: disk where
  "empty_disk = \<lparr>screenshots_dir = None, qc = Map.empty\<rparr>"

section \<open>Fixtures and layouts used as examples\<close>

definition repo_a :: repo where
  "repo_a = \<lparr>name = ''a/x'', url = ''https://github.com/a/x'', stars_today = 120,
             language = ''Go'', trending_score = 5\<rparr>"

definition repo_b :: repo where
  "repo_b = \<lparr>name = ''b/y'', url = ''https://github.com/b/y'', stars_today = 1150,
             language = ''Rust'', trending_score = 9\<rparr>"

definition repo_c :: repo where
  "repo_c = \<lparr>name = ''c/z'', url = ''https://github.com/c/z'', stars_today = 7,
             language = ''Zig'', trending_score = 5\<rparr>"

text \<open>
  A strip of 3000 pixels (two copies of 1500) in a container of 1000; a strip of 1500
  (two copies of 750) in the same container; a strip of 2200, as the long one may
  measure after the page has been laid out anew; and the error message, no wider than
  the container it sits in.
\<close>

definition long_strip :: layout where
  "long_strip = \<lparr>strip_scrollWidth = 3000, container_offsetWidth = 1000\<rparr>"

definition short_strip :: layout where
  "short_strip = \<lparr>strip_scrollWidth = 1500, container_offsetWidth = 1000\<rparr>"

definition wider_strip :: layout where
  "wider_strip = \<lparr>strip_scrollWidth = 2200, container_offsetWidth = 1000\<rparr>"

definition message_only :: layout where
  "message_only = \<lparr>strip_scrollWidth = 1000, container_offsetWidth = 1000\<rparr>"

definition loaded :: ticker where
  "loaded = step (Fetch (Response True (Parsed [repo_a, repo_b, repo_c])) 0) (initTicker page_element)"

subsection \<open>Sites, pages and runs used as examples\<close>

definition BASE_URL :: string where
  "BASE_URL = ''https://robertc30.github.io/landing-page''"

text \<open>A site on which every link works, and one whose blog page never shows its marker.\<close>

definition site_up :: site where
  "site_up pg = \<lparr>link_clicked = True, location = BASE_URL @ pg_path pg, marker_visible = True\<rparr>"

definition site_blog_down :: site where
  "site_blog_down pg =
     (if pg_path pg = ''/blog/'' then (site_up pg)\<lparr>marker_visible := False\<rparr> else site_up pg)"

text \<open>A root page that is 80 pixels wider than every viewport, logo in place.\<close>

definition page_too_wide :: root_page where
  "page_too_wide w h = \<lparr>logo_visible = True, scrollWidth = int w + 80, clientWidth = int w\<rparr>"

definition case_logo :: test_case where
  "case_logo =
     \<lparr>info = \<lparr>title = ''logo is visible in KAI section'', status = passed, duration = 812\<rparr>,
      shots = [''logo-visible.png''],
      ended_on = ''2026-02-10'', ended_at = ''2026-02-10T09:00:01.000Z''\<rparr>"

definition case_ticker :: test_case where
  "case_ticker =
     \<lparr>info = \<lparr>title = ''trending ticker is ANIMATING (movement proof)'', status = failed,
              duration = 3950\<rparr>,
      shots = [],
      ended_on = ''2026-02-10'', ended_at = ''2026-02-10T09:00:05.000Z''\<rparr>"

section \<open>Star labels\<close>

lemma floor_numeral_div: "\<lfloor>numeral a / numeral b :: rat\<rfloor> = numeral a div numeral b"
  using floor_divide_of_int_eq [of "numeral a" "numeral b", where ?'a = rat] by simp

lemmas label_defs = formatNumber_def spec_formatNumber_def toFixed1_def nearest_tenths_def
  number_div_def rne_def tenths_def digit_def round_def Let_def ilog2.simps toString.simps
  floor_numeral_div

lemma ilog2_le: "n < 2 ^ Suc j \<Longrightarrow> ilog2 n \<le> j"
proof (induction j arbitrary: n)
  case 0
  then show ?case by (subst ilog2.simps) simp
next
  case (Suc j)
  show ?case
  proof (cases "n < 2")
    case True
    then show ?thesis by (subst ilog2.simps) simp
  next
    case False
    from Suc.prems have "n div 2 < 2 ^ Suc j" by simp
    from Suc.IH [OF this] False show ?thesis by (subst ilog2.simps) simp
  qed
qed

lemma rne_bounds:
  assumes "0 < b"
  shows "2 * (rne a b * b) \<le> 2 * a + b \<and> 2 * a \<le> 2 * (rne a b * b) + b"
proof -
  define q where "q = a div b"
  define r where "r = a mod b"
  have a: "a = q * b + r" by (simp add: q_def r_def)
  have r: "r < b" using assms by (simp add: r_def)
  show ?thesis
    using r unfolding rne_def Let_def q_def [symmetric] r_def [symmetric] a
    by (auto simp: algebra_simps)
qed

lemma int_mult_small:
  fixes X P :: int
  assumes "X * P \<le> 500" "512 \<le> P"
  shows "X \<le> 0"
proof (rule ccontr)
  assume "\<not> X \<le> 0"
  then have "1 \<le> X" by simp
  then have "1 * P \<le> X * P" using assms(2) by (intro mult_right_mono) simp_all
  with assms show False by simp
qed

text \<open>
  Below \<open>2\<^sup>5\<^sup>3\<close> the binary quotient is close enough to \<open>n / 1000\<close> for the number printed
  to be a one-decimal number nearest to \<open>n / 1000\<close>.
\<close>

lemma nearest_tenths_div:
  assumes "1000 \<le> n" "n < 2 ^ 53"
  shows "100 * nearest_tenths (number_div n 1000) \<le> int n + 50 \<and>
         int n \<le> 100 * nearest_tenths (number_div n 1000) + 50"
proof -
  define k where "k = 52 - ilog2 (n div 1000)"
  define m where "m = rne (n * 2 ^ k) 1000"
  define P :: int where "P = 2 ^ k"
  define r where "r = nearest_tenths (number_div n 1000)"
  have "n div 1000 < 2 ^ Suc 43"
    using assms(2) by (intro less_mult_imp_div_less) simp
  then have "ilog2 (n div 1000) \<le> 43" by (rule ilog2_le)
  then have "9 \<le> k" by (simp add: k_def)
  then have "(2::int) ^ 9 \<le> 2 ^ k" by (intro power_increasing) simp_all
  then have P: "512 \<le> P" by (simp add: P_def)
  have x: "number_div n 1000 = of_int (int m) / of_int P"
    by (simp add: number_div_def Let_def k_def m_def P_def)
  from rne_bounds [of 1000 "n * 2 ^ k"]
  have "2 * (m * 1000) \<le> 2 * (n * 2 ^ k) + 1000 \<and> 2 * (n * 2 ^ k) \<le> 2 * (m * 1000) + 1000"
    by (simp add: m_def)
  then have "int (2 * (m * 1000)) \<le> int (2 * (n * 2 ^ k) + 1000) \<and>
      int (2 * (n * 2 ^ k)) \<le> int (2 * (m * 1000) + 1000)"
    by (simp only: of_nat_le_iff)
  then have m: "1000 * int m \<le> int n * P + 500" "int n * P \<le> 1000 * int m + 500"
    by (simp_all add: P_def)
  have Ppos: "0 < (of_int P :: rat)" using P by simp
  have fl: "(of_int r :: rat) \<le> 10 * (of_int (int m) / of_int P) + 1 / 2"
    "10 * (of_int (int m) / of_int P) + 1 / 2 < of_int r + (1::rat)"
    unfolding r_def nearest_tenths_def x by linarith+
  from fl(1) Ppos have "(of_int r :: rat) * (2 * of_int P) \<le> 20 * of_int (int m) + of_int P"
    by (simp add: field_simps)
  then have "(of_int (r * (2 * P)) :: rat) \<le> of_int (20 * int m + P)" by simp
  then have lo: "r * (2 * P) \<le> 20 * int m + P" by (simp only: of_int_le_iff)
  from fl(2) Ppos have "20 * of_int (int m) + of_int P < (of_int r + 1 :: rat) * (2 * of_int P)"
    by (simp add: field_simps)
  then have "(of_int (20 * int m + P) :: rat) < of_int ((r + 1) * (2 * P))" by simp
  then have hi: "20 * int m + P < (r + 1) * (2 * P)" by (simp only: of_int_less_iff)
  have "(100 * r - 50 - int n) * P \<le> 500"
    using lo m(1) by (simp add: algebra_simps)
  from int_mult_small [OF this P] have A: "100 * r \<le> int n + 50" by simp
  have "(int n - 100 * r - 50) * P \<le> 500"
    using hi m(2) by (simp add: algebra_simps)
  from int_mult_small [OF this P] have B: "int n \<le> 100 * r + 50" by simp
  from A B show ?thesis by (simp add: r_def)
qed

lemma nearest_is_rounded:
  fixes r :: int
  assumes "100 * r \<le> int n + 50" "int n \<le> 100 * r + 50" "n mod 100 \<noteq> 50"
  shows "r = (int n + 50) div 100"
proof -
  define d where "d = int n + 50 - 100 * r"
  have d: "0 \<le> d" "d \<le> 100" using assms(1,2) by (simp_all add: d_def)
  have "d \<noteq> 100"
  proof
    assume "d = 100"
    then have "int n = 50 + r * 100" by (simp add: d_def)
    then have "int n mod 100 = 50" by simp
    then have "int (n mod 100) = int 50" by (simp add: zmod_int)
    then have "n mod 100 = 50" by (simp only: of_nat_eq_iff)
    with assms(3) show False by simp
  qed
  with d have d': "0 \<le> d" "d < 100" by simp_all
  have "(int n + 50) div 100 = (d + r * 100) div 100" by (simp add: d_def)
  also have "\<dots> = r" using d' by simp
  finally show ?thesis by simp
qed

lemma round_hundredth: "round (of_nat n / 100 :: rat) = (int n + 50) div 100"
proof -
  have "of_nat n / 100 + 1 / 2 = (of_int (int n + 50) / of_int 100 :: rat)"
    by simp
  then show ?thesis
    unfolding round_def by (simp only: floor_divide_of_int_eq)
qed

lemma label_nearest:
  assumes "n < 2 ^ 53"
  shows "(n < 1000 \<longrightarrow> formatNumber n = toString n) \<and>
         (1000 \<le> n \<longrightarrow>
            (\<exists>r. formatNumber n = tenths r @ ''k'' \<and>
                 100 * int r \<le> int n + 50 \<and> int n \<le> 100 * int r + 50)) \<and>
         (n mod 100 \<noteq> 50 \<longrightarrow> formatNumber n = spec_formatNumber n)"
proof (cases "n < 1000")
  case True
  then show ?thesis by (simp add: formatNumber_def spec_formatNumber_def)
next
  case False
  then have n: "1000 \<le> n" by simp
  define r where "r = nearest_tenths (number_div n 1000)"
  from nearest_tenths_div [OF n assms]
  have near: "100 * r \<le> int n + 50" "int n \<le> 100 * r + 50" by (simp_all add: r_def)
  from near(2) n have "0 \<le> r" by linarith
  then have r: "int (nat r) = r" by simp
  have label: "formatNumber n = tenths (nat r) @ ''k''"
    using n by (simp add: formatNumber_def toFixed1_def r_def)
  have "n mod 100 \<noteq> 50 \<Longrightarrow> r = (int n + 50) div 100"
    using nearest_is_rounded [OF near] .
  then have "n mod 100 \<noteq> 50 \<Longrightarrow> formatNumber n = spec_formatNumber n"
    using n by (simp add: label spec_formatNumber_def round_hundredth)
  with label near r n show ?thesis by auto
qed

text \<open>
  At a halfway point \<open>n = 100 a + 50\<close> the two nearest one-decimal numbers are \<open>a / 10\<close>
  and \<open>(a + 1) / 10\<close>. The upper one is printed when the binary quotient is not below
  \<open>n / 1000\<close>, the lower one when it is.
\<close>

lemma halfway_neighbour:
  assumes n: "1000 \<le> n" "n < 2 ^ 53" and half: "n mod 100 = 50"
  shows "nat (nearest_tenths (number_div n 1000)) =
           (if of_nat n / 1000 \<le> number_div n 1000 then (n + 50) div 100 else (n - 50) div 100)"
proof -
  define a where "a = n div 100"
  define x where "x = number_div n 1000"
  define r where "r = nearest_tenths x"
  have na: "n = 100 * a + 50"
    using half div_mult_mod_eq [of n 100] by (simp add: a_def)
  from nearest_tenths_div [OF n]
  have near: "100 * r \<le> int n + 50" "int n \<le> 100 * r + 50" by (simp_all add: r_def x_def)
  have bounds: "int a \<le> r" "r \<le> int a + 1" using near na by simp_all
  have up: "(n + 50) div 100 = a + 1" and down: "(n - 50) div 100 = a"
    using na by simp_all
  have q: "(of_nat n / 1000 :: rat) = (of_int (int a) + 1 / 2) / 10"
    by (simp add: na)
  show ?thesis
  proof (cases "of_nat n / 1000 \<le> x")
    case True
    then have "of_int (int a + 1) \<le> 10 * x + 1 / 2" by (simp add: q)
    then have "int a + 1 \<le> r" unfolding r_def nearest_tenths_def by (simp only: le_floor_iff)
    with bounds have "r = int a + 1" by simp
    then have "nat r = a + 1" by simp
    with True up show ?thesis by (simp add: r_def x_def)
  next
    case False
    then have "10 * x + 1 / 2 < of_int (int a + 1)" by (simp add: q)
    then have "r < int a + 1" unfolding r_def nearest_tenths_def by (simp only: floor_less_iff)
    with bounds have "r = int a" by simp
    then have "nat r = a" by simp
    with False down show ?thesis by (simp add: r_def x_def)
  qed
qed

text \<open>
  Claim C8, as amended. For every star count \<open>n\<close> below \<open>2\<^sup>5\<^sup>3\<close>: below 1000 the label is
  the decimal representation of \<open>n\<close>; from 1000 on it is a number with one decimal
  followed by \<open>k\<close>, and that number is a one-decimal number nearest to \<open>n / 1000\<close>, so that,
  whenever \<open>n / 1000\<close> does not lie halfway between two one-decimal numbers, the label is
  \<open>n / 1000\<close> rounded to one decimal place followed by \<open>k\<close>. At a halfway point
  (\<open>n mod 100 = 50\<close>) the upper neighbour is printed when the binary value of the quotient
  is not below \<open>n / 1000\<close>, and the lower neighbour when it is below.
\<close>

theorem star_label:
  assumes "n < 2 ^ 53"
  shows "(n < 1000 \<longrightarrow> formatNumber n = toString n) \<and>
         (1000 \<le> n \<longrightarrow>
            (\<exists>r. formatNumber n = tenths r @ ''k'' \<and>
                 100 * int r \<le> int n + 50 \<and> int n \<le> 100 * int r + 50)) \<and>
         (n mod 100 \<noteq> 50 \<longrightarrow> formatNumber n = spec_formatNumber n) \<and>
         (1000 \<le> n \<and> n mod 100 = 50 \<longrightarrow>
            formatNumber n =
              tenths (if of_nat n / 1000 \<le> number_div n 1000
                      then (n + 50) div 100 else (n - 50) div 100) @ ''k'')"
proof -
  have "1000 \<le> n \<and> n mod 100 = 50 \<longrightarrow>
      formatNumber n =
        tenths (if of_nat n / 1000 \<le> number_div n 1000
                then (n + 50) div 100 else (n - 50) div 100) @ ''k''"
    using halfway_neighbour [of n] assms
    by (simp add: formatNumber_def toFixed1_def)
  with label_nearest [OF assms] show ?thesis by simp
qed

text \<open>
  The theorem at 1234 stars, which is not a halfway point: the label is \<open>1.2k\<close>, as the
  rounding gives. And at 1150 stars, a halfway point where the binary quotient lies
  below \<open>1.15\<close>: the lower neighbour is printed, \<open>1.1k\<close>.
\<close>

theorem star_label_witness:
  "(1234::nat) < 2 ^ 53 \<and> (1234::nat) mod 100 \<noteq> 50 \<and>
   formatNumber 1234 = spec_formatNumber 1234 \<and> spec_formatNumber 1234 = ''1.2k'' \<and>
   (1150::nat) < 2 ^ 53 \<and> (1000::nat) \<le> 1150 \<and> (1150::nat) mod 100 = 50 \<and>
   \<not> (of_nat 1150 / 1000 \<le> number_div 1150 1000) \<and>
   formatNumber 1150 = ''1.1k''"
proof -
  have a: "spec_formatNumber 1234 = ''1.2k''"
    by (simp add: label_defs)
  have b: "\<not> (of_nat 1150 / 1000 \<le> number_div 1150 1000)"
    by (simp add: number_div_def rne_def Let_def ilog2.simps)
  have c: "tenths ((1150 - 50) div 100) @ ''k'' = ''1.1k''"
    by (simp add: tenths_def digit_def toString.simps)
  have "formatNumber 1150 =
      tenths (if of_nat 1150 / 1000 \<le> number_div 1150 1000
              then (1150 + 50) div 100 else (1150 - 50) div 100) @ ''k''"
    using star_label [of 1150] by simp
  then have d: "formatNumber 1150 = ''1.1k''"
    using b c by simp
  show ?thesis using star_label [of 1234] a b d by simp
qed

text \<open>
  Claim C8 as stated fails at the halfway points. For 1150 stars the label is \<open>1.1k\<close>,
  because the binary value nearest to \<open>1.15\<close> lies below it, where \<open>1.15\<close> rounded to one
  decimal place is \<open>1.2\<close>; for 1250 stars, where the quotient is exact, it is \<open>1.3k\<close>.
\<close>

theorem star_label_counterexample:
  "formatNumber 1150 = ''1.1k'' \<and> spec_formatNumber 1150 = ''1.2k'' \<and>
   formatNumber 1250 = ''1.3k''"
  by (simp add: label_defs)

section \<open>Sorting: order and stability\<close>

lemma mset_insert_by: "mset (insert_by cmp x ys) = add_mset x (mset ys)"
  by (induction ys) auto

lemma mset_array_sort: "mset (array_sort cmp xs) = mset xs"
  by (induction xs) (auto simp: array_sort_def mset_insert_by)

lemma insert_by_score:
  "insert_by compareScore x ys = insort_key (\<lambda>r. - trending_score r) x ys"
  by (induction ys) (auto simp: compareScore_def)

lemma array_sort_score:
  "array_sort compareScore xs = sort_key (\<lambda>r. - trending_score r) xs"
  by (induction xs) (auto simp: array_sort_def insert_by_score)

lemma sorted_array_sort_score:
  "sorted_wrt (\<lambda>a b. trending_score b \<le> trending_score a) (array_sort compareScore data)"
proof -
  have "sorted (map (\<lambda>r. - trending_score r) (sort_key (\<lambda>r. - trending_score r) data))"
    by (rule sorted_sort_key)
  then show ?thesis
    by (simp add: array_sort_score sorted_map)
qed

lemma stable_array_sort_score:
  "filter (\<lambda>r. trending_score r = k) (array_sort compareScore data) =
   filter (\<lambda>r. trending_score r = k) data"
  using sort_key_stable [of "\<lambda>r. - trending_score r" "- k" data]
  by (simp add: array_sort_score)

section \<open>The track: range of the position and reversal\<close>

lemmas engine_defs = move_def request_frame_def pauseTicker_def set_transform_def
  contentWidth_def lower_bound_def TICKER_SPEED_def TICKER_PAUSE_def Let_def

lemmas eval_defs = run_def run_frame_def animate_def engine_defs initTicker_def page_element_def
  intersection_def fetch_settles_def data_loaded_def startAnimation_def render_def show_error_def
  timeout_fires_def renderTicker_def render_cards_def array_sort_def compareScore_def in_range_def
  well_directed_def frames_at_def loaded_def repo_a_def repo_b_def repo_c_def
  long_strip_def short_strip_def message_only_def

lemma move_in_range:
  "container_offsetWidth L \<le> contentWidth L \<Longrightarrow> in_range L (currentPosition (move L t s))"
  by (simp add: engine_defs in_range_def)

lemma move_well_directed: "well_directed s \<Longrightarrow> well_directed (move L t s)"
  by (simp add: engine_defs well_directed_def)

lemma move_clamps:
  "currentPosition (move L t s) =
     clamp L (currentPosition s + TICKER_SPEED * of_int (direction s) * ((t - lastTime s) / 1000))"
  by (simp add: engine_defs clamp_def)

lemma animate_in_range:
  assumes "container_offsetWidth L \<le> contentWidth L" "in_range L (currentPosition s)"
  shows "in_range L (currentPosition (animate L t s))"
  using assms move_in_range [of L t s] by (simp add: animate_def request_frame_def)

lemma animate_well_directed: "well_directed s \<Longrightarrow> well_directed (animate L t s)"
  using move_well_directed [of s L t] by (simp add: animate_def request_frame_def well_directed_def)

lemma animate_pow_inv:
  assumes "container_offsetWidth L \<le> contentWidth L"
  shows "in_range L (currentPosition s) \<and> well_directed s \<Longrightarrow>
     in_range L (currentPosition ((animate L t ^^ n) s)) \<and> well_directed ((animate L t ^^ n) s)"
  by (induction n) (simp_all add: animate_in_range [OF assms] animate_well_directed)

lemma step_inv:
  assumes "container_offsetWidth L \<le> contentWidth L"
    and "in_range L (currentPosition s) \<and> well_directed s"
    and "case e of Frame t L' \<Rightarrow> L' = L | _ \<Rightarrow> True"
  shows "in_range L (currentPosition (step e s)) \<and> well_directed (step e s)"
proof (cases e)
  case (Intersect b now)
  with assms(2) show ?thesis
    by (simp add: intersection_def request_frame_def well_directed_def Let_def)
next
  case (Fetch r now)
  with assms(2) show ?thesis
    by (simp add: fetch_settles_def data_loaded_def startAnimation_def render_def show_error_def
        request_frame_def well_directed_def split: fetched.splits payload.splits)
next
  case (Frame t L')
  with assms(3) have "L' = L" by simp
  with Frame assms(1,2) show ?thesis
    using animate_pow_inv [OF assms(1), where s = "s\<lparr>pending_frames := 0\<rparr>" and t = t
        and n = "pending_frames s"]
    by (simp add: run_frame_def well_directed_def)
next
  case Timeout
  with assms(2) show ?thesis
    by (simp add: timeout_fires_def well_directed_def split: list.splits)
qed

lemma run_inv:
  assumes "container_offsetWidth L \<le> contentWidth L"
  shows "in_range L (currentPosition s) \<and> well_directed s \<Longrightarrow> frames_at L evs \<Longrightarrow>
     in_range L (currentPosition (run evs s)) \<and> well_directed (run evs s)"
proof (induction evs arbitrary: s)
  case Nil
  then show ?case by (simp add: run_def)
next
  case (Cons e evs)
  from Cons.prems have e: "case e of Frame t L' \<Rightarrow> L' = L | _ \<Rightarrow> True" and rest: "frames_at L evs"
    by (simp_all add: frames_at_def)
  have "in_range L (currentPosition (step e s)) \<and> well_directed (step e s)"
    using step_inv [OF assms Cons.prems(1) e] .
  from Cons.IH [OF this rest] show ?case by (simp add: run_def)
qed

lemma tick_flips:
  assumes "container_offsetWidth L \<le> contentWidth L"
    and "in_range L (currentPosition s)" "well_directed s"
    and "tickerElement s \<noteq> None" "isVisible s" "\<not> isPaused s" "lastTime s < t"
  shows "(direction (animate L t s) = - direction s) =
         (currentPosition (animate L t s) = 0 \<or> currentPosition (animate L t s) = lower_bound L)"
proof -
  from assms(3) consider "direction s = 1" | "direction s = - 1"
    by (auto simp: well_directed_def)
  then show ?thesis
  proof cases
    case 1
    with assms show ?thesis
      by (auto simp: animate_def engine_defs in_range_def) argo+
  next
    case 2
    with assms show ?thesis
      by (auto simp: animate_def engine_defs in_range_def)
  qed
qed

text \<open>
  When every frame of a run reads one layout with \<open>containerWidth \<le> contentWidth\<close> and
  the run starts on the track, it stays on the track (\<open>run_inv\<close>). The widths are read
  anew at each frame, though, so the statement that holds of every run is about the
  widths each tick reads.
\<close>

lemma animate_moving_in_range:
  "container_offsetWidth L \<le> contentWidth L \<Longrightarrow> moving s \<Longrightarrow>
     in_range L (currentPosition (animate L t s))"
  using move_in_range [of L t s] by (auto simp: moving_def animate_def request_frame_def)

lemma animate_pow_in_range:
  assumes "container_offsetWidth L \<le> contentWidth L" "in_range L (currentPosition s)"
  shows "in_range L (currentPosition ((animate L t ^^ n) s))"
  using assms(2) by (induction n) (simp_all add: animate_in_range [OF assms(1)])

lemma frame_moving_in_range:
  assumes "container_offsetWidth L \<le> contentWidth L" "moving s" "0 < pending_frames s"
  shows "in_range L (currentPosition (step (Frame t L) s))"
proof -
  from assms(3) obtain n where n: "pending_frames s = Suc n" by (cases "pending_frames s") auto
  define s0 where "s0 = s\<lparr>pending_frames := 0\<rparr>"
  have "moving s0" using assms(2) by (simp add: moving_def s0_def)
  then have "in_range L (currentPosition (animate L t s0))"
    by (rule animate_moving_in_range [OF assms(1)])
  then have "in_range L (currentPosition ((animate L t ^^ n) (animate L t s0)))"
    by (rule animate_pow_in_range [OF assms(1)])
  then show ?thesis
    by (simp add: run_frame_def n s0_def funpow_swap1)
qed

lemma animate_still:
  "\<not> moving s \<Longrightarrow>
     currentPosition (animate L t s) = currentPosition s \<and>
     direction (animate L t s) = direction s \<and> \<not> moving (animate L t s)"
  by (auto simp: moving_def animate_def request_frame_def)

lemma animate_pow_still:
  "\<not> moving s \<Longrightarrow>
     currentPosition ((animate L t ^^ n) s) = currentPosition s \<and>
     direction ((animate L t ^^ n) s) = direction s \<and> \<not> moving ((animate L t ^^ n) s)"
  by (induction n) (simp_all add: animate_still)

lemma frame_still:
  assumes "\<not> (moving s \<and> 0 < pending_frames s)"
  shows "currentPosition (step (Frame t L) s) = currentPosition s \<and>
         direction (step (Frame t L) s) = direction s"
proof (cases "pending_frames s = 0")
  case True
  then show ?thesis by (simp add: run_frame_def)
next
  case False
  with assms have "\<not> moving (s\<lparr>pending_frames := 0\<rparr>)" by (simp add: moving_def)
  from animate_pow_still [OF this, where L = L and t = t and n = "pending_frames s"]
  show ?thesis by (simp add: run_frame_def)
qed

lemma other_events_still:
  "\<not> is_frame e \<Longrightarrow>
     currentPosition (step e s) = currentPosition s \<and> direction (step e s) = direction s"
  by (cases e)
    (simp_all add: intersection_def request_frame_def Let_def fetch_settles_def data_loaded_def
      startAnimation_def render_def show_error_def timeout_fires_def
      split: fetched.splits payload.splits list.splits)

lemma run_snoc: "run (evs @ [e]) s = step e (run evs s)"
  by (simp add: run_def)

lemma run_Cons: "run (e # evs) s = run evs (step e s)"
  by (simp add: run_def)

lemma position_after_run:
  "case last_moving_frame evs s of
     None \<Rightarrow> currentPosition (run evs s) = currentPosition s
   | Some L \<Rightarrow>
       container_offsetWidth L \<le> contentWidth L \<longrightarrow> in_range L (currentPosition (run evs s))"
proof (induction evs arbitrary: s)
  case Nil
  then show ?case by (simp add: run_def)
next
  case (Cons e evs)
  show ?case
  proof (cases "last_moving_frame evs (step e s)")
    case (Some L)
    with Cons.IH [of "step e s"] show ?thesis by (simp add: run_Cons)
  next
    case None
    with Cons.IH [of "step e s"]
    have same: "currentPosition (run (e # evs) s) = currentPosition (step e s)"
      by (simp add: run_Cons)
    show ?thesis
    proof (cases "is_frame e")
      case False
      with None same other_events_still [of e s] show ?thesis
        by (cases e) simp_all
    next
      case True
      then obtain t L where e: "e = Frame t L" by (cases e) auto
      show ?thesis
      proof (cases "moving s \<and> 0 < pending_frames s")
        case True
        with None e same frame_moving_in_range [of L s t] show ?thesis by simp
      next
        case False
        with None e same frame_still [of s t L] show ?thesis by auto
      qed
    qed
  qed
qed

text \<open>
  Claim C1, as amended. The claim puts no condition on the widths, fixes no layout and
  takes any timestamps. After any sequence of events \<open>evs\<close> from any state:
  \<^item> the position is where the last frame that moved the strip has left it, and when
    that frame read widths with \<open>containerWidth \<le> contentWidth\<close> the position lies in
    \<open>[-(contentWidth - containerWidth), 0]\<close> for the widths that frame read; when no
    frame has moved the strip the position is the one the sequence started from;
  \<^item> a frame whose callback moves the strip (element present, container visible, not
    paused, a callback pending) and reads widths with \<open>containerWidth \<le> contentWidth\<close>
    leaves the position in \<open>[-(contentWidth - containerWidth), 0]\<close> for the widths it
    read, whatever its timestamp and whatever the position was;
  \<^item> a frame that does not move the strip, and every event that is not a frame (the
    observer reporting, the fetch settling, a timer firing), leaves position and
    direction as they were;
  \<^item> a tick that moves the strip, starts inside the range of the widths it reads with
    direction \<open>1\<close> or \<open>-1\<close>, and has a timestamp later than the previous one, reverses the
    direction exactly when it leaves the position on one of the two bounds.
\<close>

theorem position_stays_on_track:
  "(case last_moving_frame evs s of
      None \<Rightarrow> currentPosition (run evs s) = currentPosition s
    | Some L' \<Rightarrow>
        container_offsetWidth L' \<le> contentWidth L' \<longrightarrow>
        in_range L' (currentPosition (run evs s))) \<and>
   (container_offsetWidth L \<le> contentWidth L \<and> moving (run evs s) \<and>
      0 < pending_frames (run evs s) \<longrightarrow>
      in_range L (currentPosition (run (evs @ [Frame t L]) s))) \<and>
   (\<not> (moving (run evs s) \<and> 0 < pending_frames (run evs s)) \<longrightarrow>
      currentPosition (run (evs @ [Frame t L]) s) = currentPosition (run evs s) \<and>
      direction (run (evs @ [Frame t L]) s) = direction (run evs s)) \<and>
   (\<not> is_frame e \<longrightarrow>
      currentPosition (run (evs @ [e]) s) = currentPosition (run evs s) \<and>
      direction (run (evs @ [e]) s) = direction (run evs s)) \<and>
   (container_offsetWidth L \<le> contentWidth L \<and> moving (run evs s) \<and>
      in_range L (currentPosition (run evs s)) \<and> well_directed (run evs s) \<and>
      lastTime (run evs s) < t \<longrightarrow>
      (direction (animate L t (run evs s)) = - direction (run evs s)) =
      (currentPosition (animate L t (run evs s)) = 0 \<or>
       currentPosition (animate L t (run evs s)) = lower_bound L))"
  using frame_moving_in_range [of L "run evs s" t] frame_still [of "run evs s" t L]
    other_events_still [of e "run evs s"] tick_flips [of L "run evs s" t]
    position_after_run [of evs s]
  by (simp add: run_snoc moving_def)

text \<open>
  The theorem at the strip of 3000 pixels: a frame 16 ms after the data has loaded has
  moved the position to \<open>-0.8\<close>; a frame ten seconds later would pass the lower bound
  \<open>-500\<close>, is set to it, and reverses the direction; a timer firing instead leaves the
  position at \<open>-0.8\<close>.
\<close>

theorem position_stays_on_track_witness:
  "container_offsetWidth long_strip \<le> contentWidth long_strip \<and>
   last_moving_frame [Frame 16 long_strip] loaded = Some long_strip \<and>
   moving (run [Frame 16 long_strip] loaded) \<and>
   0 < pending_frames (run [Frame 16 long_strip] loaded) \<and>
   currentPosition (run [Frame 16 long_strip] loaded) = - 4 / 5 \<and>
   in_range long_strip (currentPosition (run [Frame 16 long_strip] loaded)) \<and>
   well_directed (run [Frame 16 long_strip] loaded) \<and>
   lastTime (run [Frame 16 long_strip] loaded) < 10016 \<and>
   direction (run [Frame 16 long_strip] loaded) = - 1 \<and>
   in_range long_strip
     (currentPosition (run ([Frame 16 long_strip] @ [Frame 10016 long_strip]) loaded)) \<and>
   direction (animate long_strip 10016 (run [Frame 16 long_strip] loaded)) = 1 \<and>
   currentPosition (animate long_strip 10016 (run [Frame 16 long_strip] loaded)) =
     lower_bound long_strip \<and>
   \<not> is_frame Timeout \<and>
   currentPosition (run ([Frame 16 long_strip] @ [Timeout]) loaded) = - 4 / 5"
  using position_stays_on_track [where L = long_strip and evs = "[Frame 16 long_strip]"
      and s = loaded and t = 10016 and e = Timeout]
  by (simp add: eval_defs moving_def)

text \<open>
  Claim C1 as stated fails, in three ways. With the strip of 1500 pixels in the
  container of 1000 the first frame after loading puts the position at \<open>250\<close>, which is
  above \<open>0\<close>. With the long strip, a frame that sets the position to the bound \<open>-500\<close>
  followed, during the dwell, by a frame that reads the strip at 2200 pixels leaves the
  position at \<open>-500\<close>, below the bound \<open>-100\<close> of the widths then read. And a first frame
  whose timestamp equals the time of loading leaves the position on the bound \<open>0\<close>
  without reversing the direction.
\<close>

theorem position_leaves_track_counterexample:
  "currentPosition (run [Frame 16 short_strip] loaded) = 250 \<and>
   \<not> in_range short_strip (currentPosition (run [Frame 16 short_strip] loaded)) \<and>
   container_offsetWidth wider_strip \<le> contentWidth wider_strip \<and>
   currentPosition (run [Frame 10016 long_strip, Frame 10032 wider_strip] loaded) = - 500 \<and>
   \<not> in_range wider_strip
       (currentPosition (run [Frame 10016 long_strip, Frame 10032 wider_strip] loaded)) \<and>
   currentPosition (run [Frame 0 long_strip] loaded) = 0 \<and>
   direction (run [Frame 0 long_strip] loaded) = direction loaded"
  by (simp add: eval_defs wider_strip_def)

section \<open>The dwell\<close>

lemma animate_paused:
  "isPaused s \<Longrightarrow> currentPosition (animate L t s) = currentPosition s \<and>
     direction (animate L t s) = direction s \<and> isPaused (animate L t s) \<and>
     timeouts (animate L t s) = timeouts s"
  by (simp add: animate_def request_frame_def)

lemma animate_pow_paused:
  "isPaused s \<Longrightarrow> currentPosition ((animate L t ^^ n) s) = currentPosition s \<and>
     direction ((animate L t ^^ n) s) = direction s \<and> isPaused ((animate L t ^^ n) s) \<and>
     timeouts ((animate L t ^^ n) s) = timeouts s"
  by (induction n) (simp_all add: animate_paused)

lemma frame_paused:
  "isPaused s \<Longrightarrow> currentPosition (step (Frame t L) s) = currentPosition s \<and>
     direction (step (Frame t L) s) = direction s \<and> isPaused (step (Frame t L) s) \<and>
     timeouts (step (Frame t L) s) = timeouts s"
  using animate_pow_paused [where s = "s\<lparr>pending_frames := 0\<rparr>" and L = L and t = t
      and n = "pending_frames s"]
  by (simp add: run_frame_def)

lemma frames_paused:
  "isPaused s \<Longrightarrow> list_all is_frame evs \<Longrightarrow>
     currentPosition (run evs s) = currentPosition s \<and> direction (run evs s) = direction s \<and>
     isPaused (run evs s) \<and> timeouts (run evs s) = timeouts s"
proof (induction evs arbitrary: s)
  case Nil
  then show ?case by (simp add: run_def)
next
  case (Cons e evs)
  from Cons.prems obtain t L where e: "e = Frame t L" and rest: "list_all is_frame evs"
    by (cases e) auto
  have a: "currentPosition (step e s) = currentPosition s \<and> direction (step e s) = direction s \<and>
      isPaused (step e s) \<and> timeouts (step e s) = timeouts s"
    using frame_paused [OF Cons.prems(1)] by (simp add: e)
  then have "isPaused (step e s)" by simp
  from Cons.IH [OF this rest] a show ?case by (simp add: run_def)
qed

lemma animate_visible:
  "isVisible s \<Longrightarrow> tickerElement s \<noteq> None \<Longrightarrow>
     isVisible (animate L t s) \<and> tickerElement (animate L t s) \<noteq> None \<and>
     lastTime (animate L t s) = t \<and>
     pending_frames (animate L t s) = Suc (pending_frames s) \<and>
     frame_requests (animate L t s) = Suc (frame_requests s)"
  by (auto simp: animate_def engine_defs)

lemma animate_pow_visible:
  "isVisible s \<Longrightarrow> tickerElement s \<noteq> None \<Longrightarrow>
     isVisible ((animate L t ^^ n) s) \<and> tickerElement ((animate L t ^^ n) s) \<noteq> None \<and>
     pending_frames ((animate L t ^^ n) s) = n + pending_frames s \<and>
     frame_requests ((animate L t ^^ n) s) = n + frame_requests s \<and>
     (0 < n \<longrightarrow> lastTime ((animate L t ^^ n) s) = t)"
  by (induction n) (simp_all add: animate_visible)

lemma frame_visible:
  assumes "isVisible s" "tickerElement s \<noteq> None"
  shows "pending_frames (step (Frame t L) s) = pending_frames s"
    and "isVisible (step (Frame t L) s)" and "tickerElement (step (Frame t L) s) \<noteq> None"
    and "frame_requests (step (Frame t L) s) = pending_frames s + frame_requests s"
    and "0 < pending_frames s \<Longrightarrow> lastTime (step (Frame t L) s) = t"
  using animate_pow_visible [where s = "s\<lparr>pending_frames := 0\<rparr>" and L = L and t = t
      and n = "pending_frames s"] assms
  by (simp_all add: run_frame_def)

lemma frames_visible:
  "isVisible s \<Longrightarrow> tickerElement s \<noteq> None \<Longrightarrow> list_all is_frame evs \<Longrightarrow>
     isVisible (run evs s) \<and> tickerElement (run evs s) \<noteq> None \<and>
     pending_frames (run evs s) = pending_frames s"
proof (induction evs arbitrary: s)
  case Nil
  then show ?case by (simp add: run_def)
next
  case (Cons e evs)
  from Cons.prems obtain t L where e: "e = Frame t L" and rest: "list_all is_frame evs"
    by (cases e) auto
  have v: "isVisible (step e s)" "tickerElement (step e s) \<noteq> None"
    "pending_frames (step e s) = pending_frames s"
    using frame_visible(1,2,3) [OF Cons.prems(1,2), of t L] by (simp_all add: e)
  from Cons.IH [OF v(1,2) rest] v(3) show ?case by (simp add: run_def)
qed

text \<open>
  In \<^verbatim>\<open>js/trending-ticker.js\<close> the dwell behaves as claim C2 says. A tick that passes a
  bound leaves the position on the bound, paused, with a timer of 2000 ms; while paused,
  frames leave the position alone; and when frames \<open>evs\<close> and a last frame at \<open>t\<close> have run
  during the dwell and the timer has fired, the frame at \<open>t'\<close> moves the strip by the
  speed times \<open>t' - t\<close>, the time since the previous frame.
\<close>

lemma tick_pauses_on_bound:
  assumes "tickerElement s \<noteq> None" "isVisible s" "\<not> isPaused s"
    and "currentPosition (animate L t s) = 0 \<or> currentPosition (animate L t s) = lower_bound L"
  shows "isPaused (animate L t s) \<and> timeouts (animate L t s) = timeouts s @ [2000]"
  using assms by (auto simp: animate_def engine_defs split: if_splits)

lemma resume_after_dwell:
  assumes "isPaused s" "isVisible s" "tickerElement s \<noteq> None" "0 < pending_frames s"
    and "timeouts s \<noteq> []" and "list_all is_frame evs"
  shows "currentPosition (run (evs @ [Frame t L]) s) = currentPosition s"
    and "currentPosition (animate L' t' (run (evs @ [Frame t L, Timeout]) s)) =
           clamp L' (currentPosition s + TICKER_SPEED * of_int (direction s) * ((t' - t) / 1000))"
proof -
  define s1 where "s1 = run evs s"
  define s2 where "s2 = step (Frame t L) s1"
  define s3 where "s3 = step Timeout s2"
  have p1: "currentPosition s1 = currentPosition s" "direction s1 = direction s" "isPaused s1"
    "timeouts s1 = timeouts s"
    using frames_paused [OF assms(1,6)] by (simp_all add: s1_def)
  have v1: "isVisible s1" "tickerElement s1 \<noteq> None" "pending_frames s1 = pending_frames s"
    using frames_visible [OF assms(2,3,6)] by (simp_all add: s1_def)
  have p2: "currentPosition s2 = currentPosition s" "direction s2 = direction s" "isPaused s2"
    "timeouts s2 = timeouts s"
    using frame_paused [OF p1(3), of t L] p1 by (simp_all add: s2_def)
  have v2: "isVisible s2" "tickerElement s2 \<noteq> None" "lastTime s2 = t"
    using frame_visible(2,3,5) [OF v1(1,2), of t L] v1(3) assms(4) by (simp_all add: s2_def)
  have s3: "currentPosition s3 = currentPosition s" "direction s3 = direction s" "\<not> isPaused s3"
    "isVisible s3" "tickerElement s3 \<noteq> None" "lastTime s3 = t"
    using p2 v2 assms(5) by (simp_all add: s3_def timeout_fires_def split: list.splits)
  have r2: "run (evs @ [Frame t L]) s = s2"
    by (simp add: run_def s2_def s1_def)
  have r3: "run (evs @ [Frame t L, Timeout]) s = s3"
    by (simp add: run_def s3_def s2_def s1_def)
  show "currentPosition (run (evs @ [Frame t L]) s) = currentPosition s"
    by (simp add: r2 p2)
  have "currentPosition (animate L' t' s3) = currentPosition (move L' t' s3)"
    using s3 by (auto simp: animate_def request_frame_def)
  then show "currentPosition (animate L' t' (run (evs @ [Frame t L, Timeout]) s)) =
      clamp L' (currentPosition s + TICKER_SPEED * of_int (direction s) * ((t' - t) / 1000))"
    by (simp add: r3 move_clamps s3)
qed

lemmas eval1_defs = run1_def animate1_def request_frame_def pauseTicker_def set_transform_def
  initTicker1_def page_element_def fetch_settles1_def startAnimation1_def show_error_def
  timeout_fires_def renderTicker1_def TICKER_SPEED_def TICKER_PAUSE_def Let_def array_sort_def
  compareScore_def repo_a_def repo_b_def repo_c_def

text \<open>
  Claim C2 on the earlier ticker (\<^verbatim>\<open>unnamed/part_001\<close>). The data loads at time 0 with a
  strip of 6000 pixels in a container of 1000. The frame at 16 ms passes the bound \<open>0\<close>
  and the position stays at \<open>0.8\<close>, not at the bound. Frames at 1016 and 2000 ms fall in
  the dwell; the timer fires; the frame at 2016 ms, 16 ms after the previous one, moves
  the strip by \<open>100\<close> pixels, the speed times the 2000 ms since the last unpaused frame,
  where the speed times the 16 ms since the previous frame is \<open>0.8\<close>.
\<close>

theorem earlier_ticker_jumps_after_dwell:
  "currentPosition
     (run1 [Fetch1 (Response True (Parsed [repo_a, repo_b, repo_c])) 6000 0, Frame1 16 1000]
        (initTicker1 page_element)) = 4 / 5 \<and>
   isPaused
     (run1 [Fetch1 (Response True (Parsed [repo_a, repo_b, repo_c])) 6000 0, Frame1 16 1000]
        (initTicker1 page_element)) \<and>
   currentPosition
     (run1 [Fetch1 (Response True (Parsed [repo_a, repo_b, repo_c])) 6000 0, Frame1 16 1000]
        (initTicker1 page_element)) -
   currentPosition
     (run1 [Fetch1 (Response True (Parsed [repo_a, repo_b, repo_c])) 6000 0, Frame1 16 1000,
            Frame1 1016 1000, Frame1 2000 1000, Timeout1, Frame1 2016 1000]
        (initTicker1 page_element)) = 100 \<and>
   TICKER_SPEED * ((2016 - 2000) / 1000) = 4 / 5"
  by (simp add: eval1_defs)

section \<open>Visibility\<close>

lemma animate_hidden:
  "\<not> isVisible s \<Longrightarrow> animate L t s = s\<lparr>animationId := None\<rparr>"
  by (simp add: animate_def)

lemma animate_pow_hidden:
  "\<not> isVisible s \<Longrightarrow>
     \<not> isVisible ((animate L t ^^ n) s) \<and>
     currentPosition ((animate L t ^^ n) s) = currentPosition s \<and>
     direction ((animate L t ^^ n) s) = direction s \<and>
     isPaused ((animate L t ^^ n) s) = isPaused s \<and>
     pending_frames ((animate L t ^^ n) s) = pending_frames s \<and>
     frame_requests ((animate L t ^^ n) s) = frame_requests s"
  by (induction n) (simp_all add: animate_hidden)

text \<open>
  What \<^verbatim>\<open>js/trending-ticker.js\<close> does keep of claim C3: while the container is not
  visible a frame changes neither position, direction nor pause, leaves no callback
  pending and requests none; and the observer's callback changes none of the three.
\<close>

lemma hidden_frame_is_still:
  assumes "\<not> isVisible s"
  shows "currentPosition (step (Frame t L) s) = currentPosition s \<and>
         direction (step (Frame t L) s) = direction s \<and>
         isPaused (step (Frame t L) s) = isPaused s \<and>
         pending_frames (step (Frame t L) s) = 0 \<and>
         frame_requests (step (Frame t L) s) = frame_requests s"
  using animate_pow_hidden [where s = "s\<lparr>pending_frames := 0\<rparr>" and L = L and t = t
      and n = "pending_frames s"] assms
  by (simp add: run_frame_def)

lemma intersection_keeps_state:
  "currentPosition (step (Intersect b now) s) = currentPosition s \<and>
   direction (step (Intersect b now) s) = direction s \<and>
   isPaused (step (Intersect b now) s) = isPaused s"
  by (simp add: intersection_def request_frame_def Let_def)

text \<open>
  Claim C3 fails on \<^verbatim>\<open>js/trending-ticker.js\<close>. The observer reports the container
  visible 5 ms after \<^verbatim>\<open>initTicker\<close> and requests a frame; the fixture arrives at 120 ms
  and \<^verbatim>\<open>startAnimation\<close> requests another without looking at \<^verbatim>\<open>animationId\<close>. Two
  callbacks are pending, and two are pending after every later frame.
\<close>

theorem two_callbacks_pending:
  "pending_frames
     (run [Intersect True 5, Fetch (Response True (Parsed [repo_a, repo_b, repo_c])) 120]
        (initTicker page_element)) = 2 \<and>
   pending_frames
     (run [Intersect True 5, Fetch (Response True (Parsed [repo_a, repo_b, repo_c])) 120,
           Frame 136 long_strip, Frame 152 long_strip]
        (initTicker page_element)) = 2"
  by (simp add: eval_defs numeral_2_eq_2)

section \<open>A fetch that fails\<close>

lemma failed_fetch_shows_error:
  "fetch_failed r \<Longrightarrow> fetch_settles r now s = show_error s"
  by (auto simp: fetch_failed_def fetch_settles_def split: fetched.splits payload.splits)

text \<open>
  The earlier ticker (\<^verbatim>\<open>unnamed/part_001\<close>) does what claim C4 says: a failed fetch shows
  the message and requests no frame, and nothing else in that script requests one.
\<close>

lemma earlier_ticker_failed_fetch:
  "fetch_failed r \<Longrightarrow>
     frame_requests (run1 [Fetch1 r w now] (initTicker1 el)) = 0 \<and>
     tickerElement (run1 [Fetch1 r w now] (initTicker1 el)) = Some (el\<lparr>innerHTML := TickerError\<rparr>)"
  by (auto simp: fetch_failed_def run1_def fetch_settles1_def show_error_def initTicker1_def
      split: fetched.splits payload.splits)

text \<open>
  Claim C4 fails on \<^verbatim>\<open>js/trending-ticker.js\<close>. The observer reports the container
  visible and requests a frame; the fetch is then rejected. The message is shown, one
  frame has been requested, the loop goes on requesting a frame at every frame, and it
  moves the message: with the message no wider than its container the first tick puts
  the position at \<open>500\<close>.
\<close>

theorem failed_fetch_still_animates:
  "tickerElement (run [Intersect True 5, Fetch Unreachable 120] (initTicker page_element)) =
     Some (page_element\<lparr>innerHTML := TickerError\<rparr>) \<and>
   frame_requests (run [Intersect True 5, Fetch Unreachable 120] (initTicker page_element)) = 1 \<and>
   frame_requests
     (run [Intersect True 5, Fetch Unreachable 120, Frame 136 message_only, Frame 152 message_only]
        (initTicker page_element)) = 3 \<and>
   currentPosition
     (run [Intersect True 5, Fetch Unreachable 120, Frame 136 message_only, Frame 152 message_only]
        (initTicker page_element)) = 500"
  by (simp add: eval_defs)

section \<open>An empty fixture\<close>

lemma render_nothing: "render (s\<lparr>repos := []\<rparr>) = s\<lparr>repos := []\<rparr>"
  by (cases "tickerElement s") (simp_all add: render_def renderTicker_def)

text \<open>
  Claim C10. When the fetch succeeds with an empty array, \<^verbatim>\<open>renderTicker\<close> returns at
  once: the element is as it was, with neither cards nor the error message written.
  \<^verbatim>\<open>startAnimation\<close> still runs: \<^verbatim>\<open>lastTime\<close> is set and one more frame is requested.
  With the container visible the callback runs at the next frame and requests again, so
  the loop goes on over the strip without cards.
\<close>

theorem empty_fixture_still_animates:
  "tickerElement (step (Fetch (Response True (Parsed [])) now) s) = tickerElement s \<and>
   repos (step (Fetch (Response True (Parsed [])) now) s) = [] \<and>
   lastTime (step (Fetch (Response True (Parsed [])) now) s) = now \<and>
   frame_requests (step (Fetch (Response True (Parsed [])) now) s) = Suc (frame_requests s) \<and>
   pending_frames (step (Fetch (Response True (Parsed [])) now) s) = Suc (pending_frames s) \<and>
   (isVisible s \<and> tickerElement s \<noteq> None \<longrightarrow>
      pending_frames (step (Frame t L) (step (Fetch (Response True (Parsed [])) now) s)) =
        Suc (pending_frames s) \<and>
      frame_requests (step (Frame t L) (step (Fetch (Response True (Parsed [])) now) s)) =
        Suc (pending_frames s) + Suc (frame_requests s) \<and>
      lastTime (step (Frame t L) (step (Fetch (Response True (Parsed [])) now) s)) = t)"
proof -
  define s' where "s' = step (Fetch (Response True (Parsed [])) now) s"
  have s': "s' = request_frame (s\<lparr>repos := [], lastTime := now\<rparr>)"
    by (simp add: s'_def fetch_settles_def data_loaded_def array_sort_def render_nothing
        startAnimation_def)
  have a: "tickerElement s' = tickerElement s" "repos s' = []" "lastTime s' = now"
    "frame_requests s' = Suc (frame_requests s)" "pending_frames s' = Suc (pending_frames s)"
    "isVisible s' = isVisible s"
    by (simp_all add: s' request_frame_def)
  have "isVisible s \<and> tickerElement s \<noteq> None \<longrightarrow>
      pending_frames (step (Frame t L) s') = Suc (pending_frames s) \<and>
      frame_requests (step (Frame t L) s') = Suc (pending_frames s) + Suc (frame_requests s) \<and>
      lastTime (step (Frame t L) s') = t"
    using frame_visible(1,4,5) [of s' t L] a by simp
  with a show ?thesis by (simp add: s'_def)
qed

text \<open>
  The theorem at the state \<^verbatim>\<open>initTicker\<close> leaves: after the empty fixture the element
  still holds the page's own markup, and a callback is pending after the next frame.
\<close>

theorem empty_fixture_still_animates_witness:
  "isVisible (initTicker page_element) \<and> tickerElement (initTicker page_element) \<noteq> None \<and>
   tickerElement (step (Fetch (Response True (Parsed [])) 120) (initTicker page_element)) =
     Some page_element \<and>
   innerHTML page_element = Markup \<and>
   pending_frames
     (step (Frame 136 message_only)
        (step (Fetch (Response True (Parsed [])) 120) (initTicker page_element))) = 1"
  using empty_fixture_still_animates [of 120 "initTicker page_element" 136 message_only]
  by (simp add: initTicker_def page_element_def)

section \<open>Order of the cards\<close>

text \<open>
  Claim C7. For every fixture the sorted array is in descending order of
  \<open>trending_score\<close>, holds the same repos, and keeps the repos of any one score in their
  fixture order. In both copies of the ticker it is what \<^verbatim>\<open>repos\<close> holds after loading,
  and the cards written are its cards in that order, the strip twice.
\<close>

theorem cards_sorted_stable:
  "sorted_wrt (\<lambda>a b. trending_score b \<le> trending_score a) (array_sort compareScore data) \<and>
   mset (array_sort compareScore data) = mset data \<and>
   (\<forall>k. filter (\<lambda>r. trending_score r = k) (array_sort compareScore data) =
        filter (\<lambda>r. trending_score r = k) data) \<and>
   repos (data_loaded data now s) = array_sort compareScore data \<and>
   (tickerElement s = Some el \<and> data \<noteq> [] \<longrightarrow>
      tickerElement (data_loaded data now s) =
        Some (el\<lparr>innerHTML :=
                    Cards (map ticker_item (array_sort compareScore data) @
                           map ticker_item (array_sort compareScore data)),
                  translateX := Some 0\<rparr>)) \<and>
   repos (fetch_settles1 (Response True (Parsed data)) w now s1) = array_sort compareScore data \<and>
   (tickerElement s1 = Some el \<and> data \<noteq> [] \<longrightarrow>
      tickerElement (fetch_settles1 (Response True (Parsed data)) w now s1) =
        Some (el\<lparr>innerHTML :=
                    Cards (map ticker_item1 (array_sort compareScore data) @
                           map ticker_item1 (array_sort compareScore data)),
                  style_width := Some (toString (length data * 2) @ ''00%'')\<rparr>))"
proof -
  have ne: "data \<noteq> [] \<Longrightarrow> array_sort compareScore data \<noteq> []"
    using mset_array_sort [of compareScore data] by (metis mset_zero_iff)
  have len: "length (array_sort compareScore data) = length data"
    using mset_array_sort [of compareScore data] by (metis size_mset)
  show ?thesis
    using ne
    by (simp add: sorted_array_sort_score stable_array_sort_score mset_array_sort
        data_loaded_def startAnimation_def request_frame_def render_def renderTicker_def
        render_cards_def fetch_settles1_def startAnimation1_def renderTicker1_def Let_def len)
qed

text \<open>
  The theorem at a fixture of three repos with scores 5, 9, 5: the repo of score 9 comes
  first and the two of score 5 keep their order, in the cards of either copy.
\<close>

theorem cards_sorted_stable_witness:
  "tickerElement (initTicker page_element) = Some page_element \<and> [repo_a, repo_b, repo_c] \<noteq> [] \<and>
   tickerElement (initTicker1 page_element) = Some page_element \<and>
   array_sort compareScore [repo_a, repo_b, repo_c] = [repo_b, repo_a, repo_c] \<and>
   tickerElement (data_loaded [repo_a, repo_b, repo_c] 0 (initTicker page_element)) =
     Some (page_element\<lparr>innerHTML :=
        Cards (map ticker_item [repo_b, repo_a, repo_c] @ map ticker_item [repo_b, repo_a, repo_c]),
        translateX := Some 0\<rparr>) \<and>
   tickerElement
     (fetch_settles1 (Response True (Parsed [repo_a, repo_b, repo_c])) 6000 0
        (initTicker1 page_element)) =
     Some (page_element\<lparr>innerHTML :=
        Cards (map ticker_item1 [repo_b, repo_a, repo_c] @ map ticker_item1 [repo_b, repo_a, repo_c]),
        style_width := Some ''600%''\<rparr>)"
proof -
  have order: "array_sort compareScore [repo_a, repo_b, repo_c] = [repo_b, repo_a, repo_c]"
    by (simp add: array_sort_def compareScore_def repo_a_def repo_b_def repo_c_def)
  have width: "toString 6 = ''6''"
    by (simp add: toString.simps digit_def)
  show ?thesis
    using cards_sorted_stable [of "[repo_a, repo_b, repo_c]" 0 "initTicker page_element"
        page_element 6000 "initTicker1 page_element"]
    by (simp add: order width initTicker_def initTicker1_def)
qed

section \<open>Navigation walk\<close>

lemma nav_loop_stops:
  "nav_loop shot site pgs written =
     (written @ map shot (takeWhile (tuple_passes site) pgs),
      case dropWhile (tuple_passes site) pgs of
        [] \<Rightarrow> None
      | pg # rest \<Rightarrow> Some (tuple_error site pg))"
  by (induction pgs arbitrary: written) (auto simp: tuple_passes_def tuple_error_def Let_def)

lemmas site_defs = site_up_def site_blog_down_def BASE_URL_def toHaveURL_def tuple_passes_def

text \<open>
  Claim C5, as amended. In both copies of the suite the walk checks the tuples in their
  declared order and ends at the first tuple that fails: the screenshots written are
  those of the tuples before it, the test fails with that tuple's error, and no later
  tuple is visited. All eight tuples are checked only when none fails.
\<close>

theorem navigation_stops_at_first_failure:
  "navigation_test0 site =
     (map nav_screenshot0 (takeWhile (tuple_passes site) pages),
      case dropWhile (tuple_passes site) pages of
        [] \<Rightarrow> None
      | pg # rest \<Rightarrow> Some (tuple_error site pg)) \<and>
   navigation_test 8 site =
     (map nav_screenshot (takeWhile (tuple_passes site) pagesToTest),
      case dropWhile (tuple_passes site) pagesToTest of
        [] \<Rightarrow> None
      | pg # rest \<Rightarrow> Some (tuple_error site pg))"
  by (simp add: navigation_test0_def navigation_test_def nav_loop_stops)

text \<open>The theorem on a site where every link works: eight screenshots and no error.\<close>

theorem navigation_stops_at_first_failure_witness:
  "navigation_test0 site_up = (map nav_screenshot0 pages, None) \<and> length pages = 8"
  using navigation_stops_at_first_failure [of site_up]
  by (simp add: pages_def site_defs)

text \<open>
  Claim C5 as stated fails. On a site whose blog page never shows its marker the walk
  writes the screenshot of the first tuple, throws at the second and ends, although each
  of the six tuples after it would have passed.
\<close>

theorem navigation_counterexample:
  "navigation_test0 site_blog_down =
     ([''screenshots/nav-home.png''], Some (NotVisible ''[data-testid=\"page-blog\"]'')) \<and>
   list_all (tuple_passes site_blog_down) (drop 2 pages) \<and> length (drop 2 pages) = 6"
  by (simp add: navigation_test0_def pages_def nav_screenshot0_def site_defs)

section \<open>Responsive matrix\<close>

text \<open>
  The copy \<^verbatim>\<open>unnamed/part_000\<close> does what claim C9 says: at each of the six widths a test
  that passes has seen a document no more than one pixel wider than its client width,
  and a wider document fails the test.
\<close>

lemma breakpoint_widths: "map width breakpoints = [320, 375, 414, 768, 1280, 1920]"
  by (simp add: breakpoints_def)

lemma responsive0_asserts:
  "responsive_test0 page bp = Inr f \<Longrightarrow>
     scrollWidth (page (width bp) (height bp)) \<le> clientWidth (page (width bp) (height bp)) + 1"
  by (auto simp: responsive_test0_def assertNoHorizontalScroll_def Let_def
      split: if_splits option.splits)

lemma responsive0_overflow:
  "logo_visible (page (width bp) (height bp)) \<Longrightarrow>
   scrollWidth (page (width bp) (height bp)) > clientWidth (page (width bp) (height bp)) + 1 \<Longrightarrow>
   responsive_test0 page bp = Inl HorizontalOverflow"
  by (simp add: responsive_test0_def assertNoHorizontalScroll_def Let_def)

text \<open>
  Claim C9 fails on \<^verbatim>\<open>visual-qc.spec.js\<close>, whose responsive tests make no assertion on
  the widths. On a root page 80 pixels wider than the viewport at each of the six
  breakpoints, every one of its tests passes and writes its screenshot, where every test
  of \<^verbatim>\<open>unnamed/part_000\<close> fails with the overflow.
\<close>

theorem responsive_passes_overflow:
  "map (responsive_test page_too_wide) breakpoints =
     map (\<lambda>bp. Inr (''screenshots/responsive-'' @ bp_name bp @ ''.png'')) breakpoints \<and>
   map (responsive_test0 page_too_wide) breakpoints =
     map (\<lambda>bp. Inl HorizontalOverflow) breakpoints \<and>
   list_all (\<lambda>bp. scrollWidth (page_too_wide (width bp) (height bp)) >
        clientWidth (page_too_wide (width bp) (height bp)) + 1) breakpoints"
  by (simp add: responsive_test_def responsive_test0_def assertNoHorizontalScroll_def
      breakpoints_def page_too_wide_def)

section \<open>Report writer\<close>

lemma afterEach_entry:
  "report_entries (afterEach date now ti d) date =
     [\<lparr>timestamp = now, test = title ti, report_status = status ti,
       report_duration = duration ti, screenshots = png_files d\<rparr>]"
  by (simp add: report_entries_def afterEach_def Let_def)

lemma screenshots_dir_afterEach: "screenshots_dir (afterEach date now ti d) = screenshots_dir d"
  by (simp add: afterEach_def Let_def)

lemma png_files_afterEach: "png_files (afterEach date now ti d) = png_files d"
  by (simp add: png_files_def screenshots_dir_afterEach)

lemma run_cases_snoc: "run_cases (cs @ [c]) d = run_case c (run_cases cs d)"
  by (simp add: run_cases_def)

lemma screenshots_dir_fold:
  "f \<in> set fs \<Longrightarrow> \<exists>files. screenshots_dir (fold screenshot fs d) = Some files \<and> f \<in> set files"
proof (induction fs arbitrary: d rule: rev_induct)
  case Nil
  then show ?case by simp
next
  case (snoc x xs)
  show ?case
  proof (cases "f = x")
    case True
    then show ?thesis by (simp add: screenshot_def write_file_def)
  next
    case False
    with snoc.prems have "f \<in> set xs" by simp
    from snoc.IH [OF this, of d] show ?thesis
      by (auto simp: screenshot_def write_file_def)
  qed
qed

text \<open>
  Claim C6, as amended. The hook writes \<^verbatim>\<open>report.json\<close> anew after each test case, so
  after a run of one or more cases the report of the date on which the last case ended
  holds one entry, that of the last case: its timestamp, title, status and duration, and
  as artifacts every \<^verbatim>\<open>.png\<close> file then in \<^verbatim>\<open>screenshots\<close>, which include the
  screenshots that case wrote.
\<close>

theorem report_holds_last_case:
  assumes "cs \<noteq> []"
  shows "report_entries (run_cases cs d) (ended_on (last cs)) =
           [\<lparr>timestamp = ended_at (last cs), test = title (info (last cs)),
             report_status = status (info (last cs)),
             report_duration = duration (info (last cs)),
             screenshots = png_files (run_cases cs d)\<rparr>] \<and>
         (\<forall>f \<in> set (shots (last cs)).
            endsWith f ''.png'' \<longrightarrow> f \<in> set (png_files (run_cases cs d)))"
proof -
  from assms have cs: "cs = butlast cs @ [last cs]" by simp
  define d' where "d' = run_cases (butlast cs) d"
  have run: "run_cases cs d = run_case (last cs) d'"
    using run_cases_snoc [of "butlast cs" "last cs" d] cs by (simp add: d'_def)
  have png: "png_files (run_cases cs d) = png_files (fold screenshot (shots (last cs)) d')"
    by (simp add: run run_case_def png_files_afterEach)
  have "\<And>f. f \<in> set (shots (last cs)) \<Longrightarrow> endsWith f ''.png'' \<Longrightarrow>
      f \<in> set (png_files (fold screenshot (shots (last cs)) d'))"
    using screenshots_dir_fold [of _ "shots (last cs)" d'] by (fastforce simp: png_files_def)
  with png show ?thesis
    by (simp add: run run_case_def afterEach_entry)
qed

lemmas report_eval_defs = run_cases_def run_case_def afterEach_entry case_logo_def
  case_ticker_def empty_disk_def png_files_def screenshot_def write_file_def endsWith_def

text \<open>
  The theorem at a run of two cases, the second of which fails before it takes a
  screenshot: the report holds the entry of the second case, and its artifacts are the
  screenshot of the first.
\<close>

theorem report_holds_last_case_witness:
  "[case_logo, case_ticker] \<noteq> [] \<and>
   report_entries (run_cases [case_logo, case_ticker] empty_disk) ''2026-02-10'' =
     [\<lparr>timestamp = ''2026-02-10T09:00:05.000Z'',
       test = ''trending ticker is ANIMATING (movement proof)'',
       report_status = failed, report_duration = 3950,
       screenshots = [''logo-visible.png'']\<rparr>]"
proof -
  have ne: "[case_logo, case_ticker] \<noteq> []" by simp
  have png: "png_files (run_cases [case_logo, case_ticker] empty_disk) = [''logo-visible.png'']"
    by (simp add: run_cases_def run_case_def screenshots_dir_afterEach case_logo_def
        case_ticker_def empty_disk_def png_files_def screenshot_def write_file_def endsWith_def)
  have "report_entries (run_cases [case_logo, case_ticker] empty_disk)
          (ended_on (last [case_logo, case_ticker])) =
        [\<lparr>timestamp = ended_at (last [case_logo, case_ticker]),
          test = title (info (last [case_logo, case_ticker])),
          report_status = status (info (last [case_logo, case_ticker])),
          report_duration = duration (info (last [case_logo, case_ticker])),
          screenshots = [''logo-visible.png'']\<rparr>]"
    using report_holds_last_case [OF ne, of empty_disk] unfolding png by (rule conjunct1)
  moreover have "last [case_logo, case_ticker] = case_ticker" by simp
  ultimately show ?thesis by (simp add: case_ticker_def)
qed

text \<open>
  Claim C6 as stated fails: after a run of two test cases the report holds one entry, the
  second case's; the entry of the first has been overwritten.
\<close>

theorem report_counterexample:
  "map test (report_entries (run_cases [case_logo, case_ticker] empty_disk) ''2026-02-10'') =
     [''trending ticker is ANIMATING (movement proof)''] \<and>
   length (report_entries (run_cases [case_logo, case_ticker] empty_disk) ''2026-02-10'') \<noteq>
     length [case_logo, case_ticker]"
  by (simp add: run_cases_def run_case_def afterEach_entry case_logo_def case_ticker_def)

end
